theory Spec2Isabelle
  imports Complex_Main
begin

section \<open>Errors\<close>

text \<open>
  The exceptions the two modules can raise, explicitly or through a Python or numpy
  primitive. \<open>NonFinite\<close> is not an exception: it marks the places where numpy divides a
  float array by zero and goes on with \<open>inf\<close> or \<open>nan\<close> entries, values that exact
  arithmetic does not have; the model stops there and reports the case.
\<close>

datatype py_error =
  AttributeError | IndexError | KeyError | ValueError | ZeroDivisionError | NonFinite

section \<open>The registries (gradients.py, wrappers.py)\<close>

text \<open>
  Callables are objects in a store, named by a reference. A function object carries its
  attribute dictionary; \<open>settable\<close> says whether the object accepts attribute assignment
  (a function made by \<open>def\<close> does, a builtin such as \<open>len\<close> raises AttributeError).
\<close>

type_synonym ref = nat

record pyfunc =
  attrs :: "string \<rightharpoonup> string"
  settable :: bool

text \<open>
  The module-level state: the object store, \<open>numerical_gradients\<close> of gradients.py
  (a dict from framework name to a list of callables) and \<open>blackbox_wrappers\<close> of
  wrappers.py (a dict from framework name to a callable or Python's \<open>None\<close>, the inner
  option).
\<close>

record py_state =
  objects :: "ref \<Rightarrow> pyfunc"
  numerical_gradients :: "string \<rightharpoonup> ref list"
  blackbox_wrappers :: "string \<rightharpoonup> ref option"

definition initial_gradients :: "string \<rightharpoonup> ref list" where
  "initial_gradients = [''pytorch'' \<mapsto> [], ''tensorflow'' \<mapsto> []]"

definition initial_wrappers :: "string \<rightharpoonup> ref option" where
  "initial_wrappers = [''pytorch'' \<mapsto> None, ''tensorflow'' \<mapsto> None]"

definition initial_state :: "(ref \<Rightarrow> pyfunc) \<Rightarrow> py_state" where
  "initial_state objs =
     \<lparr>objects = objs, numerical_gradients = initial_gradients,
      blackbox_wrappers = initial_wrappers\<rparr>"

text \<open>A store of plain function objects without attributes, for concrete runs.\<close>

definition plain_function :: pyfunc where
  "plain_function = \<lparr>attrs = Map.empty, settable = True\<rparr>"

definition plain_objects :: "ref \<Rightarrow> pyfunc" where
  "plain_objects r = plain_function"

text \<open>A store of builtin callables, which accept no attributes.\<close>

definition builtin_function :: pyfunc where
  "builtin_function = \<lparr>attrs = Map.empty, settable = False\<rparr>"

definition builtin_objects :: "ref \<Rightarrow> pyfunc" where
  "builtin_objects r = builtin_function"

text \<open>\<open>func.name = v\<close>\<close>

definition setattr :: "ref \<Rightarrow> string \<Rightarrow> string \<Rightarrow> py_state \<Rightarrow> py_error + py_state" where
  "setattr func name v s =
     (if settable (objects s func)
      then Inr (s\<lparr>objects := (objects s)
                  (func := (objects s func)\<lparr>attrs := (attrs (objects s func))(name \<mapsto> v)\<rparr>)\<rparr>)
      else Inl AttributeError)"

text \<open>
  gradients.py, \<open>decorate_numerical_gradient\<close>: the attribute is set, then
  \<open>numerical_gradients[framework]\<close> is looked up (KeyError for a missing key of the plain
  dict) and the callable appended to that list. The state is returned on both paths: an
  exception leaves the effects that came before it.
\<close>

definition decorate_numerical_gradient ::
  "string \<Rightarrow> ref \<Rightarrow> py_state \<Rightarrow> (py_error + ref) \<times> py_state" where
  "decorate_numerical_gradient framework func s =
     (case setattr func ''optimizer'' framework s of
        Inl e \<Rightarrow> (Inl e, s)
      | Inr s1 \<Rightarrow>
          (case numerical_gradients s1 framework of
             None \<Rightarrow> (Inl KeyError, s1)
           | Some fs \<Rightarrow>
               (Inr func,
                s1\<lparr>numerical_gradients := (numerical_gradients s1)(framework \<mapsto> fs @ [func])\<rparr>)))"

definition numerical_gradient ::
  "string \<Rightarrow> ref \<Rightarrow> py_state \<Rightarrow> (py_error + ref) \<times> py_state" where
  "numerical_gradient framework = decorate_numerical_gradient framework"

text \<open>
  wrappers.py, \<open>register_wrapper\<close>: the attribute is set, the registry entry is assigned
  (on a dict this raises no AttributeError, so the \<open>except\<close> branch is never taken), and
  only then is the framework name checked.
\<close>

definition register_wrapper ::
  "string \<Rightarrow> ref \<Rightarrow> py_state \<Rightarrow> (py_error + ref) \<times> py_state" where
  "register_wrapper framework func s =
     (case setattr func ''framework'' framework s of
        Inl e \<Rightarrow> (Inl e, s)
      | Inr s1 \<Rightarrow>
          (let s2 = s1\<lparr>blackbox_wrappers := (blackbox_wrappers s1)(framework \<mapsto> Some func)\<rparr>
           in if framework \<notin> set [''pytorch'', ''tensorflow'']
              then (Inl ValueError, s2)
              else (Inr func, s2)))"

definition blackbox_wrapper ::
  "string \<Rightarrow> ref \<Rightarrow> py_state \<Rightarrow> (py_error + ref) \<times> py_state" where
  "blackbox_wrapper framework = register_wrapper framework"

definition get_blackbox_wrapper :: "string \<Rightarrow> py_state \<Rightarrow> py_error + ref option" where
  "get_blackbox_wrapper framework s =
     (case blackbox_wrappers s framework of None \<Rightarrow> Inl KeyError | Some w \<Rightarrow> Inr w)"

text \<open>
  A module applying the decorator to several functions in turn; the first exception ends
  the run.
\<close>

fun register_wrappers :: "(string \<times> ref) list \<Rightarrow> py_state \<Rightarrow> py_error + py_state" where
  "register_wrappers [] s = Inr s"
| "register_wrappers ((framework, func) # rs) s =
     (case blackbox_wrapper framework func s of
        (Inl e, s') \<Rightarrow> Inl e
      | (Inr f, s') \<Rightarrow> register_wrappers rs s')"

text \<open>The callables registered under one framework name, in order.\<close>

definition registered_for :: "string \<Rightarrow> (string \<times> ref) list \<Rightarrow> ref list" where
  "registered_for framework rs = map snd (filter (\<lambda>r. fst r = framework) rs)"

section \<open>Predictor (wrappers.py)\<close>

text \<open>
  The classifier object has a \<open>predict\<close> attribute or not. A preprocessor object has a
  truth value (\<open>if self.preprocessor:\<close> tests it; \<open>None\<close> is false, an object is true
  unless its class says otherwise) and a \<open>transform\<close> attribute or not.
\<close>

record ('a, 'b) classifier =
  predict :: "('a \<Rightarrow> 'b) option"

record 'a preprocessor_obj =
  truthy :: bool
  transform :: "('a \<Rightarrow> 'a) option"

record ('a, 'b) Predictor =
  clf :: "('a, 'b) classifier"
  predict_fcn :: "'a \<Rightarrow> 'b"
  preprocessor :: "'a preprocessor_obj option"

definition Predictor_init ::
  "('a, 'b) classifier \<Rightarrow> 'a preprocessor_obj option \<Rightarrow> py_error + ('a, 'b) Predictor" where
  "Predictor_init c p =
     (case predict c of
        None \<Rightarrow> Inl AttributeError
      | Some f \<Rightarrow> Inr \<lparr>clf = c, predict_fcn = f, preprocessor = p\<rparr>)"

definition Predictor_call :: "('a, 'b) Predictor \<Rightarrow> 'a \<Rightarrow> py_error + 'b" where
  "Predictor_call self x =
     (case preprocessor self of
        None \<Rightarrow> Inr (predict_fcn self x)
      | Some p \<Rightarrow>
          if truthy p
          then (case transform p of
                  None \<Rightarrow> Inl AttributeError
                | Some t \<Rightarrow> Inr (predict_fcn self (t x)))
          else Inr (predict_fcn self x))"


text \<open>Concrete objects for runs of the Predictor.\<close>

definition identity_classifier :: "(int, int) classifier" where
  "identity_classifier = \<lparr>predict = Some id\<rparr>"

definition falsy_doubler :: "int preprocessor_obj" where
  "falsy_doubler = \<lparr>truthy = False, transform = Some ((*) 2)\<rparr>"

definition doubler :: "int preprocessor_obj" where
  "doubler = \<lparr>truthy = True, transform = Some ((*) 2)\<rparr>"

definition no_transform :: "int preprocessor_obj" where
  "no_transform = \<lparr>truthy = True, transform = None\<rparr>"

definition no_transform_predictor :: "(int, int) Predictor" where
  "no_transform_predictor =
     \<lparr>clf = identity_classifier, predict_fcn = id, preprocessor = Some no_transform\<rparr>"

definition falsy_predictor :: "(int, int) Predictor" where
  "falsy_predictor =
     \<lparr>clf = identity_classifier, predict_fcn = id, preprocessor = Some falsy_doubler\<rparr>"

section \<open>Arrays\<close>

text \<open>
  A numpy array or TensorFlow tensor: its shape and its entries in row-major (C) order.
  Floats are modelled in exact arithmetic, as reals. An array is well formed when it has
  as many entries as its shape says.
\<close>

record 'a ndarray =
  shape :: "nat list"
  data :: "'a list"

definition np_size :: "'a ndarray \<Rightarrow> nat" where
  "np_size A = prod_list (shape A)"

definition well_formed :: "'a ndarray \<Rightarrow> bool" where
  "well_formed A \<longleftrightarrow> length (data A) = np_size A"

text \<open>
  The flattened instance \<open>i\<close> of a batch: entries \<open>i * D ..< (i + 1) * D\<close>, where \<open>D\<close> is
  the product of the trailing axes.
\<close>

definition feature_count :: "'a ndarray \<Rightarrow> nat" where
  "feature_count A = prod_list (tl (shape A))"

definition instance_row :: "'a ndarray \<Rightarrow> nat \<Rightarrow> 'a list" where
  "instance_row A i = take (feature_count A) (drop (i * feature_count A) (data A))"

subsection \<open>Reshaping\<close>

text \<open>
  A requested shape: each axis is a length or \<open>-1\<close> (\<open>Infer\<close>). numpy allows one \<open>-1\<close>; it
  raises ValueError when the known lengths multiply to zero ("cannot reshape array of
  size 0 into shape (0,newaxis)") or do not divide the size, and, without a \<open>-1\<close>, when
  the sizes differ. In C order the entries stay as they are.
\<close>

datatype axis_len = Dim nat | Infer

fun known_dims :: "axis_len list \<Rightarrow> nat list" where
  "known_dims [] = []"
| "known_dims (Dim n # ds) = n # known_dims ds"
| "known_dims (Infer # ds) = known_dims ds"

fun fill_dims :: "nat \<Rightarrow> axis_len list \<Rightarrow> nat list" where
  "fill_dims u [] = []"
| "fill_dims u (Dim n # ds) = n # fill_dims u ds"
| "fill_dims u (Infer # ds) = u # fill_dims u ds"

definition resolve_shape :: "nat \<Rightarrow> axis_len list \<Rightarrow> py_error + nat list" where
  "resolve_shape sz newshape =
     (let s_known = prod_list (known_dims newshape);
          unknowns = length (filter (\<lambda>d. d = Infer) newshape)
      in if 1 < unknowns then Inl ValueError
         else if unknowns = 1 then
           (if s_known = 0 \<or> sz mod s_known \<noteq> 0 then Inl ValueError
            else Inr (fill_dims (sz div s_known) newshape))
         else if sz \<noteq> s_known then Inl ValueError
         else Inr (fill_dims 0 newshape))"

definition np_reshape :: "'a ndarray \<Rightarrow> axis_len list \<Rightarrow> py_error + 'a ndarray" where
  "np_reshape A newshape =
     (case resolve_shape (np_size A) newshape of
        Inl e \<Rightarrow> Inl e
      | Inr s \<Rightarrow> Inr \<lparr>shape = s, data = data A\<rparr>)"

text \<open>
  Index arithmetic for \<open>order='F'\<close>: a flat index and a multi-index of a shape, in C
  order (last axis fastest) and in Fortran order (first axis fastest).
\<close>

fun unravel_C :: "nat list \<Rightarrow> nat \<Rightarrow> nat list" where
  "unravel_C [] k = []"
| "unravel_C (n # ns) k = (k div prod_list ns) # unravel_C ns (k mod prod_list ns)"

fun ravel_C :: "nat list \<Rightarrow> nat list \<Rightarrow> nat" where
  "ravel_C (n # ns) (i # is) = i * prod_list ns + ravel_C ns is"
| "ravel_C ns is = 0"

definition unravel_F :: "nat list \<Rightarrow> nat \<Rightarrow> nat list" where
  "unravel_F s k = rev (unravel_C (rev s) k)"

definition ravel_F :: "nat list \<Rightarrow> nat list \<Rightarrow> nat" where
  "ravel_F s idx = ravel_C (rev s) (rev idx)"

text \<open>
  \<open>np.reshape(A, newshape, order='F')\<close>: the entry at a multi-index of the result is the
  entry of \<open>A\<close> with the same Fortran-order flat index.
\<close>

definition np_reshape_F :: "'a ndarray \<Rightarrow> axis_len list \<Rightarrow> py_error + 'a ndarray" where
  "np_reshape_F A newshape =
     (case resolve_shape (np_size A) newshape of
        Inl e \<Rightarrow> Inl e
      | Inr s \<Rightarrow>
          Inr \<lparr>shape = s,
               data = map (\<lambda>c. data A ! ravel_C (shape A)
                                   (unravel_F (shape A) (ravel_F s (unravel_C s c))))
                          [0..<prod_list s]\<rparr>)"

subsection \<open>Constructors, tiling, repeating, joining, slicing\<close>

text \<open>\<open>np.eye(d)\<close> and \<open>np.ones((r, c))\<close>\<close>

definition np_eye :: "nat \<Rightarrow> real ndarray" where
  "np_eye d =
     \<lparr>shape = [d, d], data = map (\<lambda>k. if k div d = k mod d then 1 else 0) [0..<d * d]\<rparr>"

definition np_ones :: "nat \<Rightarrow> nat \<Rightarrow> real ndarray" where
  "np_ones r c = \<lparr>shape = [r, c], data = replicate (r * c) 1\<rparr>"

text \<open>\<open>np.tile(A, (n, 1))\<close> for a matrix \<open>A\<close>: \<open>n\<close> copies of \<open>A\<close>, one below the other.\<close>

definition np_tile :: "'a ndarray \<Rightarrow> nat \<Rightarrow> 'a ndarray" where
  "np_tile A n = \<lparr>shape = [n * hd (shape A), hd (tl (shape A))],
                  data = concat (replicate n (data A))\<rparr>"

text \<open>
  \<open>np.repeat(A, d, axis=0)\<close> for a matrix \<open>A\<close>: each row \<open>d\<close> times in a row; row \<open>r\<close> of
  the result is row \<open>r div d\<close> of \<open>A\<close>.
\<close>

definition np_repeat :: "'a ndarray \<Rightarrow> nat \<Rightarrow> 'a ndarray" where
  "np_repeat A d =
     (let r = hd (shape A); c = hd (tl (shape A))
      in \<lparr>shape = [r * d, c],
          data = map (\<lambda>k. data A ! ((k div c) div d * c + k mod c)) [0..<r * d * c]\<rparr>)"

text \<open>
  \<open>np.concatenate([A, B], axis=0)\<close>: both need an axis 0 and equal trailing axes.
\<close>

definition np_concatenate :: "'a ndarray \<Rightarrow> 'a ndarray \<Rightarrow> py_error + 'a ndarray" where
  "np_concatenate A B =
     (case (shape A, shape B) of
        (a # as, b # bs) \<Rightarrow>
          if as = bs then Inr \<lparr>shape = (a + b) # as, data = data A @ data B\<rparr>
          else Inl ValueError
      | _ \<Rightarrow> Inl ValueError)"

text \<open>\<open>A[:n]\<close> and \<open>A[n:]\<close> along axis 0 (\<open>n\<close> not negative).\<close>

definition rows_upto :: "'a ndarray \<Rightarrow> nat \<Rightarrow> 'a ndarray" where
  "rows_upto A n =
     \<lparr>shape = min n (hd (shape A)) # tl (shape A), data = take (n * feature_count A) (data A)\<rparr>"

definition rows_from :: "'a ndarray \<Rightarrow> nat \<Rightarrow> 'a ndarray" where
  "rows_from A n =
     \<lparr>shape = (hd (shape A) - n) # tl (shape A), data = drop (n * feature_count A) (data A)\<rparr>"

subsection \<open>Elementwise operations with broadcasting\<close>

text \<open>
  Two axis lengths are compatible when they are equal or one of them is 1; the other
  length is the result's.
\<close>

definition bdim :: "nat \<Rightarrow> nat \<Rightarrow> nat option" where
  "bdim a b = (if a = b then Some a else if a = 1 then Some b else if b = 1 then Some a else None)"

text \<open>Entry \<open>(i, j)\<close> of a matrix stretched along its axes of length 1.\<close>

definition at2 :: "'a ndarray \<Rightarrow> nat \<Rightarrow> nat \<Rightarrow> 'a" where
  "at2 A i j =
     (let r = hd (shape A); c = hd (tl (shape A))
      in data A ! ((if r = 1 then 0 else i) * c + (if c = 1 then 0 else j)))"

text \<open>\<open>A op B\<close> for two matrices; ValueError when the shapes do not broadcast.\<close>

definition np_binop2 ::
  "('a \<Rightarrow> 'a \<Rightarrow> 'a) \<Rightarrow> 'a ndarray \<Rightarrow> 'a ndarray \<Rightarrow> py_error + 'a ndarray" where
  "np_binop2 f A B =
     (case (shape A, shape B) of
        ([ra, ca], [rb, cb]) \<Rightarrow>
          (case (bdim ra rb, bdim ca cb) of
             (Some r, Some c) \<Rightarrow>
               Inr \<lparr>shape = [r, c],
                    data = map (\<lambda>k. f (at2 A (k div c) (k mod c)) (at2 B (k div c) (k mod c)))
                               [0..<r * c]\<rparr>
           | _ \<Rightarrow> Inl ValueError)
      | _ \<Rightarrow> Inl ValueError)"

text \<open>\<open>A += B\<close>: as \<open>A + B\<close>, but the result has to fit the shape of \<open>A\<close>.\<close>

definition np_iadd :: "real ndarray \<Rightarrow> real ndarray \<Rightarrow> py_error + real ndarray" where
  "np_iadd A B =
     (case np_binop2 (+) A B of
        Inl e \<Rightarrow> Inl e
      | Inr R \<Rightarrow> if shape R = shape A then Inr R else Inl ValueError)"

text \<open>
  \<open>A op v\<close> for an array \<open>A\<close> with at least one axis and a one-dimensional \<open>v\<close>: \<open>v\<close> runs
  along the last axis of \<open>A\<close>. The result is the list of operand pairs, entry by entry.
\<close>

definition broadcast_last ::
  "'a ndarray \<Rightarrow> 'a list \<Rightarrow> py_error + ('a \<times> 'a) ndarray" where
  "broadcast_last A v =
     (case rev (shape A) of
        [] \<Rightarrow> Inl ValueError
      | q # rs \<Rightarrow>
          (case bdim q (length v) of
             None \<Rightarrow> Inl ValueError
           | Some q' \<Rightarrow>
               Inr \<lparr>shape = rev (q' # rs),
                    data = map (\<lambda>k. (data A ! ((k div q') * q + (if q = 1 then 0 else k mod q')),
                                     v ! (if length v = 1 then 0 else k mod q')))
                               [0..<prod_list rs * q']\<rparr>))"

definition map_array :: "('a \<Rightarrow> 'b) \<Rightarrow> 'a ndarray \<Rightarrow> 'b ndarray" where
  "map_array f A = \<lparr>shape = shape A, data = map f (data A)\<rparr>"

subsection \<open>The step size\<close>

text \<open>
  \<open>eps\<close> is a Python float or a one-dimensional array with one step per feature.
\<close>

datatype step = Scalar real | PerFeature "real list"

text \<open>The step for feature \<open>j\<close>; an array of length 1 broadcasts.\<close>

fun step_at :: "step \<Rightarrow> nat \<Rightarrow> real" where
  "step_at (Scalar e) j = e"
| "step_at (PerFeature v) j = (if length v = 1 then v ! 0 else v ! j)"

text \<open>A step that fits \<open>D\<close> features: a float, or an array of length \<open>D\<close> or 1.\<close>

fun step_fits :: "step \<Rightarrow> nat \<Rightarrow> bool" where
  "step_fits (Scalar e) D = True"
| "step_fits (PerFeature v) D = (length v = D \<or> length v = 1)"

text \<open>\<open>A * eps\<close>\<close>

fun times_step :: "real ndarray \<Rightarrow> step \<Rightarrow> py_error + real ndarray" where
  "times_step A (Scalar e) = Inr (map_array (\<lambda>a. a * e) A)"
| "times_step A (PerFeature v) =
     (case broadcast_last A v of
        Inl e \<Rightarrow> Inl e
      | Inr P \<Rightarrow> Inr (map_array (\<lambda>(a, e). a * e) P))"

text \<open>
  \<open>eps / m\<close> for a Python int \<open>m\<close>: a float divided by zero raises ZeroDivisionError, an
  array divided by zero holds \<open>inf\<close> or \<open>nan\<close> (unless it is empty).
\<close>

fun step_div_int :: "step \<Rightarrow> int \<Rightarrow> py_error + step" where
  "step_div_int (Scalar e) m =
     (if m = 0 then Inl ZeroDivisionError else Inr (Scalar (e / real_of_int m)))"
| "step_div_int (PerFeature v) m =
     (if m = 0 \<and> v \<noteq> [] then Inl NonFinite
      else Inr (PerFeature (map (\<lambda>e. e / real_of_int m) v)))"

text \<open>\<open>2 * eps\<close>\<close>

fun double_step :: "step \<Rightarrow> step" where
  "double_step (Scalar e) = Scalar (2 * e)"
| "double_step (PerFeature v) = PerFeature (map (\<lambda>e. 2 * e) v)"

text \<open>
  \<open>A / d\<close> for a float array \<open>A\<close>: numpy divides entry by entry and a zero divisor gives
  \<open>inf\<close> or \<open>nan\<close>.
\<close>

definition divide_pairs :: "(real \<times> real) ndarray \<Rightarrow> py_error + real ndarray" where
  "divide_pairs P =
     (if list_ex (\<lambda>p. snd p = 0) (data P) then Inl NonFinite
      else Inr (map_array (\<lambda>(a, d). a / d) P))"

fun divide_step :: "real ndarray \<Rightarrow> step \<Rightarrow> py_error + real ndarray" where
  "divide_step A (Scalar d) = divide_pairs (map_array (\<lambda>a. (a, d)) A)"
| "divide_step A (PerFeature v) =
     (case broadcast_last A v of
        Inl e \<Rightarrow> Inl e
      | Inr P \<Rightarrow> divide_pairs P)"

section \<open>perturb (gradients.py)\<close>

text \<open>
  Lines 51 to 54, the matrix \<open>pert\<close> for \<open>n\<close> instances of \<open>dim\<close> features: the tiled
  \<open>eye * eps\<close> and, for \<open>proba\<close>, the tiled correction added in place.
\<close>

definition perturbation :: "nat \<Rightarrow> nat \<Rightarrow> step \<Rightarrow> bool \<Rightarrow> py_error + real ndarray" where
  "perturbation n dim' eps proba =
     (case times_step (np_eye dim') eps of
        Inl e \<Rightarrow> Inl e
      | Inr E \<Rightarrow>
          (let pert = np_tile E n
           in if proba
              then (case step_div_int eps (int dim' - 1) of
                      Inl e \<Rightarrow> Inl e
                    | Inr eps_n \<Rightarrow>
                        (case np_binop2 (-) (np_eye dim') (np_ones dim' dim') of
                           Inl e \<Rightarrow> Inl e
                         | Inr M \<Rightarrow>
                             (case times_step M eps_n of
                                Inl e \<Rightarrow> Inl e
                              | Inr C \<Rightarrow> np_iadd pert (np_tile C n))))
              else Inr pert))"

text \<open>
  The function line by line. \<open>X.shape[0]\<close> raises IndexError for an array without axes.
\<close>

definition perturb ::
  "real ndarray \<Rightarrow> step \<Rightarrow> bool \<Rightarrow> py_error + (real ndarray \<times> real ndarray)" where
  "perturb X eps proba =
     (case shape X of
        [] \<Rightarrow> Inl IndexError
      | n # feature_shape \<Rightarrow>
          (case np_reshape X [Dim n, Infer] of
             Inl e \<Rightarrow> Inl e
           | Inr X2 \<Rightarrow>
               (let dim' = shape X2 ! 1
                in case perturbation n dim' eps proba of
                     Inl e \<Rightarrow> Inl e
                   | Inr pert \<Rightarrow>
                       (let X_rep = np_repeat X2 dim'
                        in case np_binop2 (+) X_rep pert of
                             Inl e \<Rightarrow> Inl e
                           | Inr X_pert_pos \<Rightarrow>
                               (case np_binop2 (-) X_rep pert of
                                  Inl e \<Rightarrow> Inl e
                                | Inr X_pert_neg \<Rightarrow>
                                    (let shape' = map Dim ((dim' * n) # feature_shape)
                                     in case np_reshape X_pert_pos shape' of
                                          Inl e \<Rightarrow> Inl e
                                        | Inr pos \<Rightarrow>
                                            (case np_reshape X_pert_neg shape' of
                                               Inl e \<Rightarrow> Inl e
                                             | Inr neg \<Rightarrow> Inr (pos, neg))))))))"

text \<open>Two batches for concrete runs: two instances of two features, and an empty batch.\<close>

definition batch_2x2 :: "real ndarray" where
  "batch_2x2 = \<lparr>shape = [2, 2], data = [1, 2, 3, 4]\<rparr>"


section \<open>num\_grad\_batch (gradients.py)\<close>

text \<open>
  \<open>func\<close> is the black box: it maps a batch and the extra arguments to a tensor.
  \<open>X[0]\<close> raises IndexError for an empty batch. \<open>tf.reshape(preds, (-1, 1))\<close> and
  \<open>reshape(-1, 1)\<close> make a single column, so \<open>preds.shape[1]\<close> is read from a shape of
  the form \<open>(m, 1)\<close>. \<open>perturb\<close> is called with its default \<open>proba=False\<close>.
\<close>

definition num_grad_batch ::
  "(real ndarray \<Rightarrow> 'args \<Rightarrow> real ndarray) \<Rightarrow> real ndarray \<Rightarrow> 'args \<Rightarrow> step
     \<Rightarrow> py_error + real ndarray" where
  "num_grad_batch func X args eps =
     (case shape X of
        [] \<Rightarrow> Inl IndexError
      | batch_size # data_shape \<Rightarrow>
          if batch_size = 0 then Inl IndexError
          else
            (case np_reshape (func X args) [Infer, Dim 1] of
               Inl e \<Rightarrow> Inl e
             | Inr preds \<Rightarrow>
            (case perturb X eps False of
               Inl e \<Rightarrow> Inl e
             | Inr (X_pert_pos, X_pert_neg) \<Rightarrow>
            (case np_concatenate X_pert_pos X_pert_neg of
               Inl e \<Rightarrow> Inl e
             | Inr X_pert \<Rightarrow>
            (case np_reshape (func X_pert args) [Infer, Dim 1] of
               Inl e \<Rightarrow> Inl e
             | Inr preds_concat \<Rightarrow>
            (let n_pert = hd (shape X_pert_pos)
             in case np_binop2 (-) (rows_upto preds_concat n_pert) (rows_from preds_concat n_pert) of
               Inl e \<Rightarrow> Inl e
             | Inr diff \<Rightarrow>
            (case np_reshape diff [Dim batch_size, Infer] of
               Inl e \<Rightarrow> Inl e
             | Inr diff2 \<Rightarrow>
            (case np_reshape_F diff2 [Dim batch_size, Dim (shape preds ! 1), Infer] of
               Inl e \<Rightarrow> Inl e
             | Inr grad_numerator \<Rightarrow>
            (case divide_step grad_numerator (double_step eps) of
               Inl e \<Rightarrow> Inl e
             | Inr grad \<Rightarrow> np_reshape grad (map Dim (shape preds @ data_shape)))))))))))"



text \<open>
  A black box with two outputs per instance, shape \<open>(N, 2)\<close>: the sum of the features
  and its double.
\<close>

definition two_outputs :: "real ndarray \<Rightarrow> unit \<Rightarrow> real ndarray" where
  "two_outputs X args =
     \<lparr>shape = [hd (shape X), 2],
      data = concat (map (\<lambda>i. [sum_list (instance_row X i), 2 * sum_list (instance_row X i)])
                         [0..<hd (shape X)])\<rparr>"

section \<open>ArgmaxTransformer (wrappers.py)\<close>

text \<open>\<open>np.atleast_2d\<close>: a scalar becomes \<open>(1, 1)\<close>, a vector of length \<open>k\<close> becomes \<open>(1, k)\<close>.\<close>

definition np_atleast_2d :: "'a ndarray \<Rightarrow> 'a ndarray" where
  "np_atleast_2d A =
     (case shape A of
        [] \<Rightarrow> A\<lparr>shape := [1, 1]\<rparr>
      | [k] \<Rightarrow> A\<lparr>shape := [1, k]\<rparr>
      | _ \<Rightarrow> A)"

text \<open>
  numpy's argmax of a sequence: the scan keeps the largest value seen and its index, and
  replaces them only for a strictly larger entry.
\<close>

fun argmax_scan :: "real \<Rightarrow> nat \<Rightarrow> nat \<Rightarrow> real list \<Rightarrow> nat" where
  "argmax_scan mp max_ind i [] = max_ind"
| "argmax_scan mp max_ind i (x # xs) =
     (if mp < x then argmax_scan x i (Suc i) xs else argmax_scan mp max_ind (Suc i) xs)"

definition argmax_list :: "real list \<Rightarrow> nat" where
  "argmax_list xs = (case xs of [] \<Rightarrow> 0 | x # rest \<Rightarrow> argmax_scan x 0 1 rest)"

text \<open>
  \<open>np.argmax(A, axis=1)\<close>: ValueError for an axis 1 of length zero ("attempt to get
  argmax of an empty sequence") and for a missing axis 1; otherwise axis 1 is reduced to
  the index of its maximum.
\<close>

definition np_argmax_axis1 :: "real ndarray \<Rightarrow> py_error + nat ndarray" where
  "np_argmax_axis1 A =
     (case shape A of
        r # c # rest \<Rightarrow>
          if c = 0 then Inl ValueError
          else
            (let m = prod_list rest
             in Inr \<lparr>shape = r # rest,
                     data = map (\<lambda>k. argmax_list
                                   (map (\<lambda>j. data A ! ((k div m) * c * m + j * m + k mod m)) [0..<c]))
                                [0..<r * m]\<rparr>)
      | _ \<Rightarrow> Inl ValueError)"

record 'x ArgmaxTransformer =
  predictor :: "'x \<Rightarrow> real ndarray"

definition ArgmaxTransformer_init :: "('x \<Rightarrow> real ndarray) \<Rightarrow> 'x ArgmaxTransformer" where
  "ArgmaxTransformer_init p = \<lparr>predictor = p\<rparr>"

definition ArgmaxTransformer_call :: "'x ArgmaxTransformer \<Rightarrow> 'x \<Rightarrow> py_error + nat ndarray" where
  "ArgmaxTransformer_call self x =
     (let pred = np_atleast_2d (predictor self x) in np_argmax_axis1 pred)"

text \<open>A predictor whose output is the empty vector, and one with three scores.\<close>

definition empty_scores :: "unit \<Rightarrow> real ndarray" where
  "empty_scores x = \<lparr>shape = [0], data = []\<rparr>"

definition three_scores :: "unit \<Rightarrow> real ndarray" where
  "three_scores x = \<lparr>shape = [3], data = [1, 5, 5]\<rparr>"

section \<open>perturb on a store of buffers\<close>

text \<open>
  For what \<open>perturb\<close> does to memory, arrays are objects that share buffers: a store is
  the list of buffers, an address is an index into it, and an array object names its
  buffer and carries its shape. A new array takes the next free address. \<open>np.reshape\<close>
  of a contiguous array returns a view, an object on the same buffer; \<open>+=\<close> writes into
  the buffer of its left operand; every other numpy call used here returns a new array.
\<close>

type_synonym heap = "real list list"

record array_ref =
  base :: nat
  ref_shape :: "nat list"

definition load :: "heap \<Rightarrow> array_ref \<Rightarrow> real ndarray" where
  "load h a = \<lparr>shape = ref_shape a, data = h ! base a\<rparr>"

definition new_array :: "real ndarray \<Rightarrow> heap \<Rightarrow> array_ref \<times> heap" where
  "new_array A h = (\<lparr>base = length h, ref_shape = shape A\<rparr>, h @ [data A])"

definition new_result :: "py_error + real ndarray \<Rightarrow> heap \<Rightarrow> (py_error + array_ref) \<times> heap" where
  "new_result r h =
     (case r of
        Inl e \<Rightarrow> (Inl e, h)
      | Inr A \<Rightarrow> (case new_array A h of (a, h') \<Rightarrow> (Inr a, h')))"

definition reshape_view :: "array_ref \<Rightarrow> axis_len list \<Rightarrow> heap \<Rightarrow> py_error + array_ref" where
  "reshape_view a newshape h =
     (case np_reshape (load h a) newshape of
        Inl e \<Rightarrow> Inl e
      | Inr A \<Rightarrow> Inr \<lparr>base = base a, ref_shape = shape A\<rparr>)"

definition iadd_in_place :: "array_ref \<Rightarrow> array_ref \<Rightarrow> heap \<Rightarrow> (py_error + array_ref) \<times> heap" where
  "iadd_in_place a b h =
     (case np_iadd (load h a) (load h b) of
        Inl e \<Rightarrow> (Inl e, h)
      | Inr R \<Rightarrow> (Inr a, h[base a := data R]))"

definition perturbation_st ::
  "nat \<Rightarrow> nat \<Rightarrow> step \<Rightarrow> bool \<Rightarrow> heap \<Rightarrow> (py_error + array_ref) \<times> heap" where
  "perturbation_st n dim' eps proba h =
     (case new_array (np_eye dim') h of (eye, h1) \<Rightarrow>
      case new_result (times_step (load h1 eye) eps) h1 of
        (Inl e, h2) \<Rightarrow> (Inl e, h2)
      | (Inr E, h2) \<Rightarrow>
          (case new_array (np_tile (load h2 E) n) h2 of (pert, h3) \<Rightarrow>
           if proba
           then (case step_div_int eps (int dim' - 1) of
                   Inl e \<Rightarrow> (Inl e, h3)
                 | Inr eps_n \<Rightarrow>
                     (case new_array (np_eye dim') h3 of (eye2, h4) \<Rightarrow>
                      case new_array (np_ones dim' dim') h4 of (ones, h5) \<Rightarrow>
                      case new_result (np_binop2 (-) (load h5 eye2) (load h5 ones)) h5 of
                        (Inl e, h6) \<Rightarrow> (Inl e, h6)
                      | (Inr M, h6) \<Rightarrow>
                          (case new_result (times_step (load h6 M) eps_n) h6 of
                             (Inl e, h7) \<Rightarrow> (Inl e, h7)
                           | (Inr C, h7) \<Rightarrow>
                               (case new_array (np_tile (load h7 C) n) h7 of (T, h8) \<Rightarrow>
                                iadd_in_place pert T h8))))
           else (Inr pert, h3)))"

definition perturb_st ::
  "array_ref \<Rightarrow> step \<Rightarrow> bool \<Rightarrow> heap \<Rightarrow> (py_error + array_ref \<times> array_ref) \<times> heap" where
  "perturb_st X eps proba h =
     (case ref_shape X of
        [] \<Rightarrow> (Inl IndexError, h)
      | n # feature_shape \<Rightarrow>
          (case reshape_view X [Dim n, Infer] h of
             Inl e \<Rightarrow> (Inl e, h)
           | Inr X2 \<Rightarrow>
               (let dim' = ref_shape X2 ! 1
                in case perturbation_st n dim' eps proba h of
                     (Inl e, h1) \<Rightarrow> (Inl e, h1)
                   | (Inr pert, h1) \<Rightarrow>
                       (case new_array (np_repeat (load h1 X2) dim') h1 of (X_rep, h2) \<Rightarrow>
                        case new_result (np_binop2 (+) (load h2 X_rep) (load h2 pert)) h2 of
                          (Inl e, h3) \<Rightarrow> (Inl e, h3)
                        | (Inr X_pert_pos, h3) \<Rightarrow>
                            (case new_result (np_binop2 (-) (load h3 X_rep) (load h3 pert)) h3 of
                               (Inl e, h4) \<Rightarrow> (Inl e, h4)
                             | (Inr X_pert_neg, h4) \<Rightarrow>
                                 (let shape' = map Dim ((dim' * n) # feature_shape)
                                  in case reshape_view X_pert_pos shape' h4 of
                                       Inl e \<Rightarrow> (Inl e, h4)
                                     | Inr pos \<Rightarrow>
                                         (case reshape_view X_pert_neg shape' h4 of
                                            Inl e \<Rightarrow> (Inl e, h4)
                                          | Inr neg \<Rightarrow> (Inr (pos, neg), h4))))))))"

text \<open>
  A store extends another when it keeps every buffer of the other as it was.
\<close>

definition extends :: "heap \<Rightarrow> heap \<Rightarrow> bool" where
  "extends h h' \<longleftrightarrow> take (length h) h' = h"

text \<open>A store holding the batch \<open>batch_2x2\<close> at address 0, and the array object for it.\<close>

definition heap_2x2 :: heap where
  "heap_2x2 = [[1, 2, 3, 4]]"

definition ref_2x2 :: array_ref where
  "ref_2x2 = \<lparr>base = 0, ref_shape = [2, 2]\<rparr>"

section \<open>Properties of the registries\<close>

lemma register_wrapper_known:
  assumes "settable (objects s func)" "framework \<in> {''pytorch'', ''tensorflow''}"
  shows "\<exists>s'. register_wrapper framework func s = (Inr func, s')
     \<and> blackbox_wrappers s' = (blackbox_wrappers s)(framework \<mapsto> Some func)
     \<and> (\<forall>r. settable (objects s' r) = settable (objects s r))"
  using assms by (auto simp add: register_wrapper_def setattr_def Let_def)

lemma register_wrappers_run:
  "\<forall>r \<in> set rs. fst r \<in> {''pytorch'', ''tensorflow''} \<and> settable (objects s (snd r)) \<Longrightarrow>
   \<exists>s'. register_wrappers rs s = Inr s'
     \<and> blackbox_wrappers s' fw =
         (if registered_for fw rs = [] then blackbox_wrappers s fw
          else Some (Some (last (registered_for fw rs))))"
proof (induction rs arbitrary: s)
  case Nil
  then show ?case by (simp add: registered_for_def)
next
  case (Cons r rs)
  obtain framework func where r: "r = (framework, func)" by (cases r)
  from Cons.prems r have k: "framework \<in> {''pytorch'', ''tensorflow''}" and st: "settable (objects s func)"
    by auto
  from register_wrapper_known [OF st k] obtain s1 where
    s1: "register_wrapper framework func s = (Inr func, s1)"
    and bw: "blackbox_wrappers s1 = (blackbox_wrappers s)(framework \<mapsto> Some func)"
    and ob: "\<forall>r. settable (objects s1 r) = settable (objects s r)" by blast
  have "\<forall>r \<in> set rs. fst r \<in> {''pytorch'', ''tensorflow''} \<and> settable (objects s1 (snd r))"
    using Cons.prems ob by simp
  from Cons.IH [OF this] obtain s' where
    run: "register_wrappers rs s1 = Inr s'"
    and res: "blackbox_wrappers s' fw =
         (if registered_for fw rs = [] then blackbox_wrappers s1 fw
          else Some (Some (last (registered_for fw rs))))" by blast
  have "register_wrappers (r # rs) s = Inr s'"
    using r s1 run by (simp add: blackbox_wrapper_def)
  moreover have "blackbox_wrappers s' fw =
         (if registered_for fw (r # rs) = [] then blackbox_wrappers s fw
          else Some (Some (last (registered_for fw (r # rs)))))"
    using res bw r by (auto simp add: registered_for_def)
  ultimately show ?case by blast
qed

text \<open>
  Claim C2, as stated, fails: for the framework name \<open>keras\<close>, which is no key of
  \<open>numerical_gradients\<close>, the decorator raises KeyError and no entry is created; and for
  a builtin callable, which accepts no attributes, it raises AttributeError even under
  \<open>tensorflow\<close>.
\<close>

theorem numerical_gradient_unknown_framework_raises:
  "fst (numerical_gradient ''keras'' 0 (initial_state plain_objects)) = Inl KeyError \<and>
   numerical_gradients (snd (numerical_gradient ''keras'' 0 (initial_state plain_objects))) ''keras''
     = None \<and>
   fst (numerical_gradient ''tensorflow'' 0 (initial_state builtin_objects)) = Inl AttributeError"
  by (simp add: numerical_gradient_def decorate_numerical_gradient_def setattr_def
      initial_state_def initial_gradients_def plain_objects_def plain_function_def
      builtin_objects_def builtin_function_def)

text \<open>
  Claim C2, amended: in a state whose registry has exactly the keys \<open>pytorch\<close> and
  \<open>tensorflow\<close> (as at import), and for a callable that accepts attributes, decorating
  under one of the two names succeeds and appends the callable to that list; under any
  other name it raises KeyError and leaves the registry as it was.
\<close>

theorem numerical_gradient_registers_under_existing_key:
  assumes "settable (objects s func)"
    and "dom (numerical_gradients s) = {''pytorch'', ''tensorflow''}"
  shows "(framework \<in> {''pytorch'', ''tensorflow''} \<longrightarrow>
           (\<exists>fs s'. numerical_gradients s framework = Some fs \<and>
              numerical_gradient framework func s = (Inr func, s') \<and>
              numerical_gradients s' = (numerical_gradients s)(framework \<mapsto> fs @ [func]))) \<and>
         (framework \<notin> {''pytorch'', ''tensorflow''} \<longrightarrow>
           (\<exists>s'. numerical_gradient framework func s = (Inl KeyError, s') \<and>
              numerical_gradients s' = numerical_gradients s))"
proof (intro conjI impI)
  assume "framework \<in> {''pytorch'', ''tensorflow''}"
  with assms(2) have "framework \<in> dom (numerical_gradients s)" by simp
  then obtain fs where "numerical_gradients s framework = Some fs" by blast
  with assms(1) show "\<exists>fs s'. numerical_gradients s framework = Some fs \<and>
              numerical_gradient framework func s = (Inr func, s') \<and>
              numerical_gradients s' = (numerical_gradients s)(framework \<mapsto> fs @ [func])"
    by (simp add: numerical_gradient_def decorate_numerical_gradient_def setattr_def)
next
  assume "framework \<notin> {''pytorch'', ''tensorflow''}"
  with assms(2) have "framework \<notin> dom (numerical_gradients s)" by simp
  then have "numerical_gradients s framework = None" by blast
  with assms(1) show "\<exists>s'. numerical_gradient framework func s = (Inl KeyError, s') \<and>
              numerical_gradients s' = numerical_gradients s"
    by (simp add: numerical_gradient_def decorate_numerical_gradient_def setattr_def)
qed

lemma dom_initial_gradients: "dom initial_gradients = {''pytorch'', ''tensorflow''}"
  by (auto simp add: initial_gradients_def)

theorem numerical_gradient_registers_under_existing_key_witness:
  "settable (objects (initial_state plain_objects) 0) \<and>
   dom (numerical_gradients (initial_state plain_objects)) = {''pytorch'', ''tensorflow''} \<and>
   fst (numerical_gradient ''tensorflow'' 0 (initial_state plain_objects)) = Inr 0 \<and>
   numerical_gradients (snd (numerical_gradient ''tensorflow'' 0 (initial_state plain_objects)))
     ''tensorflow'' = Some [0] \<and>
   fst (numerical_gradient ''keras'' 0 (initial_state plain_objects)) = Inl KeyError"
proof -
  have a: "settable (objects (initial_state plain_objects) 0)"
    by (simp add: initial_state_def plain_objects_def plain_function_def)
  have b: "dom (numerical_gradients (initial_state plain_objects)) = {''pytorch'', ''tensorflow''}"
    by (simp add: initial_state_def dom_initial_gradients)
  have i: "numerical_gradients (initial_state plain_objects) ''tensorflow'' = Some []"
    by (simp add: initial_state_def initial_gradients_def)
  from numerical_gradient_registers_under_existing_key [OF a b, of "''tensorflow''"] i
  have c: "fst (numerical_gradient ''tensorflow'' 0 (initial_state plain_objects)) = Inr 0 \<and>
   numerical_gradients (snd (numerical_gradient ''tensorflow'' 0 (initial_state plain_objects)))
     ''tensorflow'' = Some [0]"
    by auto
  from numerical_gradient_registers_under_existing_key [OF a b, of "''keras''"]
  have d: "fst (numerical_gradient ''keras'' 0 (initial_state plain_objects)) = Inl KeyError"
    by auto
  from a b c d show ?thesis by blast
qed

text \<open>
  Claim C3 at the failing input: registering under \<open>keras\<close> raises ValueError, but the
  assignment to the registry has already happened, so the registry now has a \<open>keras\<close>
  entry holding the callable.
\<close>

theorem blackbox_wrapper_unknown_framework_still_registers:
  "blackbox_wrappers (initial_state plain_objects) ''keras'' = None \<and>
   fst (blackbox_wrapper ''keras'' 0 (initial_state plain_objects)) = Inl ValueError \<and>
   blackbox_wrappers (snd (blackbox_wrapper ''keras'' 0 (initial_state plain_objects))) ''keras''
     = Some (Some 0)"
  by (simp add: blackbox_wrapper_def register_wrapper_def setattr_def Let_def
      initial_state_def initial_wrappers_def plain_objects_def plain_function_def)

text \<open>
  Claim C7: at import \<open>get_blackbox_wrapper('tensorflow')\<close> returns \<open>None\<close>; after any run
  of registrations under the two framework names (of callables that accept attributes)
  it returns \<open>None\<close> if none of them was for \<open>tensorflow\<close>, and otherwise the callable of
  the last \<open>tensorflow\<close> registration.
\<close>

theorem get_blackbox_wrapper_last_registered:
  "get_blackbox_wrapper ''tensorflow'' (initial_state objs) = Inr None \<and>
   ((\<forall>r \<in> set rs. fst r \<in> {''pytorch'', ''tensorflow''} \<and> settable (objs (snd r))) \<longrightarrow>
    (\<exists>s'. register_wrappers rs (initial_state objs) = Inr s' \<and>
       get_blackbox_wrapper ''tensorflow'' s' =
         Inr (if registered_for ''tensorflow'' rs = [] then None
              else Some (last (registered_for ''tensorflow'' rs)))))"
proof (intro conjI impI)
  show "get_blackbox_wrapper ''tensorflow'' (initial_state objs) = Inr None"
    by (simp add: get_blackbox_wrapper_def initial_state_def initial_wrappers_def)
next
  assume "\<forall>r \<in> set rs. fst r \<in> {''pytorch'', ''tensorflow''} \<and> settable (objs (snd r))"
  then have "\<forall>r \<in> set rs. fst r \<in> {''pytorch'', ''tensorflow''} \<and>
      settable (objects (initial_state objs) (snd r))"
    by (simp add: initial_state_def)
  from register_wrappers_run [OF this, of "''tensorflow''"] obtain s' where
    run: "register_wrappers rs (initial_state objs) = Inr s'"
    and res: "blackbox_wrappers s' ''tensorflow'' =
         (if registered_for ''tensorflow'' rs = []
          then blackbox_wrappers (initial_state objs) ''tensorflow''
          else Some (Some (last (registered_for ''tensorflow'' rs))))" by blast
  have "get_blackbox_wrapper ''tensorflow'' s' =
         Inr (if registered_for ''tensorflow'' rs = [] then None
              else Some (last (registered_for ''tensorflow'' rs)))"
    using res by (simp add: get_blackbox_wrapper_def initial_state_def initial_wrappers_def)
  with run show "\<exists>s'. register_wrappers rs (initial_state objs) = Inr s' \<and>
       get_blackbox_wrapper ''tensorflow'' s' =
         Inr (if registered_for ''tensorflow'' rs = [] then None
              else Some (last (registered_for ''tensorflow'' rs)))" by blast
qed

theorem get_blackbox_wrapper_last_registered_witness:
  "get_blackbox_wrapper ''tensorflow''
     (projr (register_wrappers [(''tensorflow'', 1), (''pytorch'', 2), (''tensorflow'', 3)]
        (initial_state plain_objects))) = Inr (Some 3) \<and>
   get_blackbox_wrapper ''tensorflow''
     (projr (register_wrappers [(''pytorch'', 2)] (initial_state plain_objects))) = Inr None"
proof -
  have h: "\<forall>r \<in> set [(''tensorflow'', 1), (''pytorch'', 2), (''tensorflow'', 3::nat)].
      fst r \<in> {''pytorch'', ''tensorflow''} \<and> settable (plain_objects (snd r))"
    by (simp add: plain_objects_def plain_function_def)
  have h2: "\<forall>r \<in> set [(''pytorch'', 2::nat)].
      fst r \<in> {''pytorch'', ''tensorflow''} \<and> settable (plain_objects (snd r))"
    by (simp add: plain_objects_def plain_function_def)
  from get_blackbox_wrapper_last_registered
    [of plain_objects "[(''tensorflow'', 1), (''pytorch'', 2), (''tensorflow'', 3)]"] h
  have a: "get_blackbox_wrapper ''tensorflow''
     (projr (register_wrappers [(''tensorflow'', 1), (''pytorch'', 2), (''tensorflow'', 3)]
        (initial_state plain_objects))) = Inr (Some 3)"
    by (auto simp add: registered_for_def)
  from get_blackbox_wrapper_last_registered [of plain_objects "[(''pytorch'', 2)]"] h2
  have b: "get_blackbox_wrapper ''tensorflow''
     (projr (register_wrappers [(''pytorch'', 2)] (initial_state plain_objects))) = Inr None"
    by (auto simp add: registered_for_def)
  from a b show ?thesis by blast
qed

section \<open>Properties of the Predictor\<close>

text \<open>
  Claim C8, as stated, fails: a preprocessor whose truth value is false is given and has
  a \<open>transform\<close>, construction succeeds, and the call returns \<open>predict(x)\<close> without
  applying \<open>transform\<close>; and with a preprocessor that has no \<open>transform\<close> the call
  raises AttributeError.
\<close>

theorem Predictor_skips_falsy_preprocessor:
  "Predictor_init identity_classifier (Some falsy_doubler) = Inr falsy_predictor \<and>
   Predictor_call falsy_predictor 2 = Inr 2 \<and>
   transform falsy_doubler = Some ((*) 2) \<and>
   Predictor_call falsy_predictor 2 \<noteq> Inr (id (2 * 2)) \<and>
   Predictor_init identity_classifier (Some no_transform) = Inr no_transform_predictor \<and>
   Predictor_call no_transform_predictor 2 = Inl AttributeError"
  by (simp add: Predictor_init_def Predictor_call_def identity_classifier_def
      falsy_doubler_def falsy_predictor_def no_transform_def no_transform_predictor_def)

text \<open>
  Claim C8, amended: construction raises AttributeError exactly when the classifier has
  no \<open>predict\<close>; when it succeeds, a call returns \<open>predict(transform(x))\<close> if a
  preprocessor with a true truth value was given (AttributeError if that preprocessor has
  no \<open>transform\<close>), and \<open>predict(x)\<close> if none was given or the one given is false.
\<close>

theorem Predictor_init_and_call:
  "(Predictor_init c p = Inl AttributeError \<longleftrightarrow> predict c = None) \<and>
   (\<forall>self. Predictor_init c p = Inr self \<longrightarrow>
      predict c = Some (predict_fcn self) \<and>
      Predictor_call self x =
        (case p of
           None \<Rightarrow> Inr (predict_fcn self x)
         | Some q \<Rightarrow>
             if truthy q
             then (case transform q of
                     None \<Rightarrow> Inl AttributeError
                   | Some t \<Rightarrow> Inr (predict_fcn self (t x)))
             else Inr (predict_fcn self x)))"
proof (cases "predict c")
  case None
  then have "Predictor_init c p = Inl AttributeError"
    by (simp add: Predictor_init_def)
  with None show ?thesis by simp
next
  case (Some f)
  then have init: "Predictor_init c p = Inr \<lparr>clf = c, predict_fcn = f, preprocessor = p\<rparr>"
    by (simp add: Predictor_init_def)
  have call: "Predictor_call \<lparr>clf = c, predict_fcn = f, preprocessor = p\<rparr> x =
        (case p of
           None \<Rightarrow> Inr (f x)
         | Some q \<Rightarrow>
             if truthy q
             then (case transform q of
                     None \<Rightarrow> Inl AttributeError
                   | Some t \<Rightarrow> Inr (f (t x)))
             else Inr (f x))"
    by (simp add: Predictor_call_def split: option.splits)
  from Some init call show ?thesis by (auto split: option.splits)
qed

theorem Predictor_init_and_call_witness:
  "Predictor_init \<lparr>predict = None\<rparr> (Some doubler) = (Inl AttributeError :: py_error + (int, int) Predictor) \<and>
   Predictor_call (projr (Predictor_init identity_classifier (Some doubler))) 2 = Inr 4 \<and>
   Predictor_call (projr (Predictor_init identity_classifier None)) 2 = Inr 2"
proof -
  have i: "Predictor_init identity_classifier p =
      Inr \<lparr>clf = identity_classifier, predict_fcn = id, preprocessor = p\<rparr>" for p
    by (simp add: Predictor_init_def identity_classifier_def)
  from Predictor_init_and_call [of "\<lparr>predict = None\<rparr> :: (int, int) classifier" "Some doubler"]
  have a: "Predictor_init \<lparr>predict = None\<rparr> (Some doubler)
      = (Inl AttributeError :: py_error + (int, int) Predictor)" by simp
  from Predictor_init_and_call [of identity_classifier "Some doubler" 2] i [of "Some doubler"]
  have b: "Predictor_call (projr (Predictor_init identity_classifier (Some doubler))) 2 = Inr 4"
    by (simp add: doubler_def)
  from Predictor_init_and_call [of identity_classifier None 2] i [of None]
  have c: "Predictor_call (projr (Predictor_init identity_classifier None)) 2 = Inr 2"
    by simp
  from a b c show ?thesis by blast
qed

section \<open>Properties of the ArgmaxTransformer\<close>

lemma argmax_scan_first_max:
  assumes "i = length pre" "mi < i" "pre ! mi = mp"
    and "\<forall>j<i. pre ! j \<le> mp" "\<forall>j<mi. pre ! j < mp"
  shows "argmax_scan mp mi i xs < length (pre @ xs) \<and>
         (\<forall>j<length (pre @ xs). (pre @ xs) ! j \<le> (pre @ xs) ! argmax_scan mp mi i xs) \<and>
         (\<forall>j<argmax_scan mp mi i xs. (pre @ xs) ! j < (pre @ xs) ! argmax_scan mp mi i xs)"
  using assms
proof (induction xs arbitrary: pre mp mi i)
  case Nil
  then show ?case by simp
next
  case (Cons x xs)
  show ?case
  proof (cases "mp < x")
    case True
    have a: "Suc i = length (pre @ [x])" using Cons.prems by simp
    have b: "i < Suc i" by simp
    have c: "(pre @ [x]) ! i = x" using Cons.prems by simp
    have d: "\<forall>j<Suc i. (pre @ [x]) ! j \<le> x"
      using Cons.prems True by (auto simp add: nth_append less_Suc_eq)
    have e: "\<forall>j<i. (pre @ [x]) ! j < x"
      using Cons.prems True by (auto simp add: nth_append)
    from Cons.IH [OF a b c d e] True show ?thesis by simp
  next
    case False
    have a: "Suc i = length (pre @ [x])" using Cons.prems by simp
    have b: "mi < Suc i" using Cons.prems by simp
    have c: "(pre @ [x]) ! mi = mp" using Cons.prems by (simp add: nth_append)
    have d: "\<forall>j<Suc i. (pre @ [x]) ! j \<le> mp"
      using Cons.prems False by (auto simp add: nth_append less_Suc_eq)
    have e: "\<forall>j<mi. (pre @ [x]) ! j < mp"
      using Cons.prems by (auto simp add: nth_append)
    from Cons.IH [OF a b c d e] False show ?thesis by simp
  qed
qed

lemma argmax_list_first_max:
  assumes "xs \<noteq> []"
  shows "argmax_list xs < length xs \<and>
         (\<forall>j<length xs. xs ! j \<le> xs ! argmax_list xs) \<and>
         (\<forall>j<argmax_list xs. xs ! j < xs ! argmax_list xs)"
proof -
  from assms obtain x rest where xs: "xs = x # rest" by (cases xs) auto
  have "argmax_scan x 0 1 rest < length ([x] @ rest) \<and>
         (\<forall>j<length ([x] @ rest). ([x] @ rest) ! j \<le> ([x] @ rest) ! argmax_scan x 0 1 rest) \<and>
         (\<forall>j<argmax_scan x 0 1 rest. ([x] @ rest) ! j < ([x] @ rest) ! argmax_scan x 0 1 rest)"
    by (rule argmax_scan_first_max) simp_all
  then show ?thesis by (simp add: xs argmax_list_def)
qed

lemma np_argmax_axis1_single_row:
  assumes "length xs = k" "0 < k"
  shows "np_argmax_axis1 \<lparr>shape = [1, k], data = xs\<rparr> = Inr \<lparr>shape = [1], data = [argmax_list xs]\<rparr>"
proof -
  have "map (\<lambda>j. xs ! j) [0..<k] = xs"
    by (metis assms(1) map_nth)
  then show ?thesis using assms(2) by (simp add: np_argmax_axis1_def)
qed

text \<open>
  Claim C10, as stated, fails for \<open>k = 0\<close>: on the empty vector the call raises
  ValueError (argmax of an empty sequence) instead of returning an index.
\<close>

theorem ArgmaxTransformer_empty_vector_raises:
  "ArgmaxTransformer_call (ArgmaxTransformer_init empty_scores) () = Inl ValueError"
  by (simp add: ArgmaxTransformer_call_def ArgmaxTransformer_init_def empty_scores_def
      np_atleast_2d_def np_argmax_axis1_def)

text \<open>
  Claim C10, amended: when the predictor's output is a vector of length \<open>k\<close> with
  \<open>k\<close> at least 1, it is promoted to shape \<open>(1, k)\<close> and the call returns a
  one-element array holding the first index of the maximum over all \<open>k\<close> entries.
\<close>

theorem ArgmaxTransformer_vector_is_one_instance:
  assumes "predictor self x = \<lparr>shape = [k], data = xs\<rparr>" and "length xs = k" and "0 < k"
  shows "np_atleast_2d (predictor self x) = \<lparr>shape = [1, k], data = xs\<rparr> \<and>
         (\<exists>i. ArgmaxTransformer_call self x = Inr \<lparr>shape = [1], data = [i]\<rparr> \<and>
              i < k \<and> (\<forall>j<k. xs ! j \<le> xs ! i) \<and> (\<forall>j<i. xs ! j < xs ! i))"
proof -
  have p: "np_atleast_2d (predictor self x) = \<lparr>shape = [1, k], data = xs\<rparr>"
    using assms(1) by (simp add: np_atleast_2d_def)
  have c: "ArgmaxTransformer_call self x = Inr \<lparr>shape = [1], data = [argmax_list xs]\<rparr>"
    using p np_argmax_axis1_single_row [OF assms(2,3)]
    by (simp add: ArgmaxTransformer_call_def)
  have "xs \<noteq> []" using assms(2,3) by auto
  from argmax_list_first_max [OF this] c p assms(2) show ?thesis by simp
qed

theorem ArgmaxTransformer_vector_is_one_instance_witness:
  "predictor (ArgmaxTransformer_init three_scores) () = \<lparr>shape = [3], data = [1, 5, 5]\<rparr> \<and>
   length [1, 5, 5 :: real] = 3 \<and> (0::nat) < 3 \<and>
   ArgmaxTransformer_call (ArgmaxTransformer_init three_scores) () = Inr \<lparr>shape = [1], data = [1]\<rparr>"
proof -
  have a: "predictor (ArgmaxTransformer_init three_scores) () = \<lparr>shape = [3], data = [1, 5, 5]\<rparr>"
    by (simp add: ArgmaxTransformer_init_def three_scores_def)
  have b: "length [1, 5, 5 :: real] = 3" by simp
  have c: "(0::nat) < 3" by simp
  have e: "np_argmax_axis1 \<lparr>shape = [1, 3], data = [1, 5, 5]\<rparr>
      = Inr \<lparr>shape = [1], data = [argmax_list [1, 5, 5]]\<rparr>"
    by (rule np_argmax_axis1_single_row) simp_all
  have f: "argmax_list [1, 5, 5] = 1" by (simp add: argmax_list_def)
  have g: "np_atleast_2d (predictor (ArgmaxTransformer_init three_scores) ())
      = \<lparr>shape = [1, 3], data = [1, 5, 5]\<rparr>"
    by (simp add: ArgmaxTransformer_init_def three_scores_def np_atleast_2d_def)
  have d: "ArgmaxTransformer_call (ArgmaxTransformer_init three_scores) ()
      = Inr \<lparr>shape = [1], data = [1]\<rparr>"
    by (simp only: ArgmaxTransformer_call_def Let_def g e f)
  from ArgmaxTransformer_vector_is_one_instance [OF a b c] a b c d show ?thesis by simp
qed

section \<open>Properties of the array primitives\<close>

lemma known_dims_map_Dim: "known_dims (map Dim s) = s"
  by (induction s) simp_all

lemma fill_dims_map_Dim: "fill_dims u (map Dim s) = s"
  by (induction s) simp_all

lemma no_Infer_map_Dim: "filter (\<lambda>d. d = Infer) (map Dim s) = []"
  by (induction s) simp_all

lemma resolve_shape_exact: "resolve_shape (prod_list s) (map Dim s) = Inr s"
  by (simp add: resolve_shape_def known_dims_map_Dim fill_dims_map_Dim no_Infer_map_Dim)

lemma resolve_shape_rows: "0 < n \<Longrightarrow> resolve_shape (n * D) [Dim n, Infer] = Inr [n, D]"
  by (simp add: resolve_shape_def)


lemma np_reshape_exact:
  "np_size A = prod_list s \<Longrightarrow> np_reshape A (map Dim s) = Inr \<lparr>shape = s, data = data A\<rparr>"
  by (simp add: np_reshape_def resolve_shape_exact)

lemma np_reshape_rows:
  "0 < n \<Longrightarrow> np_size A = n * D \<Longrightarrow>
   np_reshape A [Dim n, Infer] = Inr \<lparr>shape = [n, D], data = data A\<rparr>"
  by (simp add: np_reshape_def resolve_shape_rows)


lemma at2_in_range:
  assumes "shape A = [r, c]" "k < r * c"
  shows "at2 A (k div c) (k mod c) = data A ! k"
proof -
  have c: "0 < c" using assms(2) by (cases c) auto
  have "(if r = 1 then 0 else k div c) = k div c"
    using assms(2) by auto
  moreover have "(if c = 1 then 0 else k mod c) = k mod c"
    by auto
  ultimately show ?thesis
    using assms(1) by (simp add: at2_def Let_def)
qed

lemma np_binop2_same_shape:
  assumes "shape A = [r, c]" "shape B = [r, c]"
    and "length (data A) = r * c" "length (data B) = r * c"
  shows "np_binop2 f A B = Inr \<lparr>shape = [r, c], data = map2 f (data A) (data B)\<rparr>"
proof -
  have "map (\<lambda>k. f (at2 A (k div c) (k mod c)) (at2 B (k div c) (k mod c))) [0..<r * c]
        = map2 f (data A) (data B)"
    using assms by (intro nth_equalityI) (simp_all add: at2_in_range)
  then show ?thesis using assms(1,2) by (simp add: np_binop2_def bdim_def)
qed

lemma nth_concat_replicate:
  "k < n * length xs \<Longrightarrow> concat (replicate n xs) ! k = xs ! (k mod length xs)"
proof (induction n arbitrary: k)
  case 0
  then show ?case by simp
next
  case (Suc n)
  show ?case
  proof (cases "k < length xs")
    case True
    then show ?thesis by (simp add: nth_append)
  next
    case False
    then have "k - length xs < n * length xs" using Suc.prems by simp
    from Suc.IH [OF this] False show ?thesis
      by (simp add: nth_append le_mod_geq)
  qed
qed

lemma length_concat_replicate: "length (concat (replicate n xs)) = n * length xs"
  by (induction n) simp_all

lemma broadcast_last_fits:
  assumes "shape A = s @ [D]" "length v = D \<or> length v = 1"
  shows "broadcast_last A v =
     Inr \<lparr>shape = s @ [D],
          data = map (\<lambda>k. (data A ! k, step_at (PerFeature v) (k mod D))) [0..<prod_list s * D]\<rparr>"
proof -
  have r: "rev (shape A) = D # rev s" using assms(1) by simp
  have b: "bdim D (length v) = Some D" using assms(2) by (auto simp add: bdim_def)
  have i: "k div D * D + (if D = 1 then 0 else k mod D) = k" for k
    by simp
  show ?thesis
    by (simp add: broadcast_last_def r b i)
qed

lemma times_step_fits:
  assumes "shape A = s @ [D]" "length (data A) = prod_list s * D" "step_fits eps D"
  shows "times_step A eps =
     Inr \<lparr>shape = s @ [D],
          data = map (\<lambda>k. data A ! k * step_at eps (k mod D)) [0..<prod_list s * D]\<rparr>"
proof (cases eps)
  case (Scalar e)
  have "map (\<lambda>a. a * e) (data A) = map (\<lambda>k. data A ! k * e) [0..<prod_list s * D]"
    using assms(2) by (intro nth_equalityI) simp_all
  then show ?thesis using Scalar assms(1) by (simp add: map_array_def)
next
  case (PerFeature v)
  then have "length v = D \<or> length v = 1" using assms(3) by simp
  from broadcast_last_fits [OF assms(1) this] PerFeature show ?thesis
    by (simp add: map_array_def)
qed




lemma mod_square_div: "(k mod (D * D)) div D = (k div D) mod (D::nat)"
  by (cases "D = 0") (simp_all add: mod_mult2_eq)

lemma mod_square_mod: "(k mod (D * D)) mod D = k mod (D::nat)"
  by (simp add: mod_mult2_eq)


section \<open>Properties of perturb\<close>

lemma map2_upt:
  "length ys = m \<Longrightarrow> map2 f (map g [0..<m]) ys = map (\<lambda>k. f (g k) (ys ! k)) [0..<m]"
  by (intro nth_equalityI) simp_all

lemma perturb_from_perturbation:
  assumes wf: "well_formed X" and sh: "shape X = n # F" and n: "0 < n"
    and D: "D = prod_list F"
    and P: "perturbation n D eps proba = Inr P"
    and shP: "shape P = [n * D, D]" and lenP: "length (data P) = n * D * D"
  shows "perturb X eps proba =
     Inr (\<lparr>shape = (D * n) # F,
           data = map (\<lambda>k. data X ! (k div D div D * D + k mod D) + data P ! k) [0..<n * D * D]\<rparr>,
          \<lparr>shape = (D * n) # F,
           data = map (\<lambda>k. data X ! (k div D div D * D + k mod D) - data P ! k) [0..<n * D * D]\<rparr>)"
proof -
  define X2 where "X2 = \<lparr>shape = [n, D], data = data X\<rparr>"
  define X_rep where "X_rep = np_repeat X2 D"
  define pos where "pos = \<lparr>shape = [n * D, D], data = map2 (+) (data X_rep) (data P)\<rparr>"
  define neg where "neg = \<lparr>shape = [n * D, D], data = map2 (-) (data X_rep) (data P)\<rparr>"
  have sz: "np_size X = n * D" using sh D by (simp add: np_size_def)
  have r1: "np_reshape X [Dim n, Infer] = Inr X2"
    using np_reshape_rows [OF n sz] by (simp add: X2_def)
  have d1: "shape X2 ! 1 = D" by (simp add: X2_def)
  have rep: "X_rep = \<lparr>shape = [n * D, D],
      data = map (\<lambda>k. data X ! (k div D div D * D + k mod D)) [0..<n * D * D]\<rparr>"
    by (simp add: X_rep_def np_repeat_def X2_def)
  have shr: "shape X_rep = [n * D, D]" and lr: "length (data X_rep) = n * D * D"
    by (simp_all add: rep)
  have bp: "np_binop2 (+) X_rep P = Inr pos"
    using np_binop2_same_shape [OF shr shP lr lenP] by (simp add: pos_def)
  have bn: "np_binop2 (-) X_rep P = Inr neg"
    using np_binop2_same_shape [OF shr shP lr lenP] by (simp add: neg_def)
  have szp: "np_size pos = prod_list ((D * n) # F)" "np_size neg = prod_list ((D * n) # F)"
    using D by (simp_all add: np_size_def pos_def neg_def mult.commute)
  have rp: "np_reshape pos (map Dim ((D * n) # F)) = Inr \<lparr>shape = (D * n) # F, data = data pos\<rparr>"
    by (rule np_reshape_exact [OF szp(1)])
  have rn: "np_reshape neg (map Dim ((D * n) # F)) = Inr \<lparr>shape = (D * n) # F, data = data neg\<rparr>"
    by (rule np_reshape_exact [OF szp(2)])
  have dp: "data pos = map (\<lambda>k. data X ! (k div D div D * D + k mod D) + data P ! k) [0..<n * D * D]"
    unfolding pos_def rep using map2_upt [OF lenP] by simp
  have dn: "data neg = map (\<lambda>k. data X ! (k div D div D * D + k mod D) - data P ! k) [0..<n * D * D]"
    unfolding neg_def rep using map2_upt [OF lenP] by simp
  have "perturb X eps proba =
      Inr (\<lparr>shape = (D * n) # F, data = data pos\<rparr>, \<lparr>shape = (D * n) # F, data = data neg\<rparr>)"
    unfolding perturb_def sh list.case r1 sum.case Let_def d1 P X_rep_def [symmetric] bp bn
    using rp rn by simp
  then show ?thesis by (simp only: dp dn)
qed

lemma instance_row_nth:
  assumes "shape A = r # F" "D = prod_list F" "length (data A) = r * D" "i < r" "m < D"
  shows "instance_row A i ! m = data A ! (i * D + m)"
proof -
  have "i * D + D \<le> r * D"
  proof -
    have "Suc i * D \<le> r * D" using assms(4) by (intro mult_le_mono1) simp
    then show ?thesis by simp
  qed
  then have "i * D + m < length (data A)" using assms(3,5) by simp
  then show ?thesis
    using assms by (simp add: instance_row_def feature_count_def)
qed

lemma length_instance_row:
  assumes "shape A = r # F" "D = prod_list F" "length (data A) = r * D" "i < r"
  shows "length (instance_row A i) = D"
proof -
  have "Suc i * D \<le> r * D" using assms(4) by (intro mult_le_mono1) simp
  then have "i * D + D \<le> length (data A)" using assms(3) by simp
  then show ?thesis
    using assms by (simp add: instance_row_def feature_count_def)
qed

lemma row_index_bound:
  assumes "i < n" "j < (D::nat)"
  shows "i * D + j < n * D"
proof -
  have "i * D + j < Suc i * D" using assms(2) by simp
  also have "\<dots> \<le> n * D" using assms(1) by (intro mult_le_mono1) simp
  finally show ?thesis .
qed

lemma nth_map_upt0: "k < m \<Longrightarrow> map f [0..<m] ! k = f k"
  by simp

lemma perturb_entries:
  assumes wf: "well_formed X" and sh: "shape X = n # F" and n: "0 < n"
    and D: "D = prod_list F"
    and P: "perturbation n D eps proba = Inr P"
    and shP: "shape P = [n * D, D]" and lenP: "length (data P) = n * D * D"
    and eP: "\<forall>k<n * D * D. data P ! k = g ((k div D) mod D) (k mod D)"
  shows "\<exists>pos neg. perturb X eps proba = Inr (pos, neg) \<and>
      shape pos = (n * D) # F \<and> shape neg = (n * D) # F \<and>
      length (data pos) = n * D * D \<and> length (data neg) = n * D * D \<and>
      (\<forall>i<n. \<forall>j<D. \<forall>m<D.
         data pos ! ((i * D + j) * D + m) = data X ! (i * D + m) + g j m \<and>
         data neg ! ((i * D + j) * D + m) = data X ! (i * D + m) - g j m)"
proof -
  define pos where "pos = \<lparr>shape = (D * n) # F,
      data = map (\<lambda>k. data X ! (k div D div D * D + k mod D) + data P ! k) [0..<n * D * D]\<rparr>"
  define neg where "neg = \<lparr>shape = (D * n) # F,
      data = map (\<lambda>k. data X ! (k div D div D * D + k mod D) - data P ! k) [0..<n * D * D]\<rparr>"
  have run: "perturb X eps proba = Inr (pos, neg)"
    using perturb_from_perturbation [OF wf sh n D P shP lenP] by (simp add: pos_def neg_def)
  have ent: "data pos ! ((i * D + j) * D + m) = data X ! (i * D + m) + g j m \<and>
         data neg ! ((i * D + j) * D + m) = data X ! (i * D + m) - g j m"
    if i: "i < n" and j: "j < D" and m: "m < D" for i j m
  proof -
    have R: "i * D + j < n * D" by (rule row_index_bound [OF i j])
    have k: "(i * D + j) * D + m < n * D * D" by (rule row_index_bound [OF R m])
    have d1: "((i * D + j) * D + m) div D = i * D + j" using m by simp
    have d2: "((i * D + j) * D + m) mod D = m" using m by simp
    have d3: "(i * D + j) div D = i" using j by simp
    have d4: "(i * D + j) mod D = j" using j by simp
    from eP k have "data P ! ((i * D + j) * D + m) =
        g ((((i * D + j) * D + m) div D) mod D) (((i * D + j) * D + m) mod D)"
      by blast
    then have p: "data P ! ((i * D + j) * D + m) = g j m"
      by (simp only: d1 d2 d4)
    have gp: "data pos ! ((i * D + j) * D + m) =
        data X ! (((i * D + j) * D + m) div D div D * D + ((i * D + j) * D + m) mod D)
          + data P ! ((i * D + j) * D + m)"
      unfolding pos_def by (simp only: ndarray.simps nth_map_upt0 [OF k])
    have gn: "data neg ! ((i * D + j) * D + m) =
        data X ! (((i * D + j) * D + m) div D div D * D + ((i * D + j) * D + m) mod D)
          - data P ! ((i * D + j) * D + m)"
      unfolding neg_def by (simp only: ndarray.simps nth_map_upt0 [OF k])
    show ?thesis
      unfolding gp gn by (simp only: d1 d2 d3 p simp_thms)
  qed
  show ?thesis
    using run ent by (simp add: pos_def neg_def mult.commute)
qed





lemma perturb_zero_rows_raises:
  "shape X = 0 # F \<Longrightarrow> perturb X eps proba = Inl ValueError"
  by (simp add: perturb_def np_reshape_def resolve_shape_def)

lemma perturbation_proba:
  assumes "D \<noteq> 1"
  shows "\<exists>P. perturbation n D (Scalar e) True = Inr P \<and> shape P = [n * D, D] \<and>
           length (data P) = n * D * D \<and>
           (\<forall>k<n * D * D. data P ! k =
              (if (k div D) mod D = k mod D then e else 0) +
              ((if (k div D) mod D = k mod D then 1 else 0) - 1) * (e / (real D - 1)))"
proof -
  define en where "en = e / real_of_int (int D - 1)"
  define E where "E = map (\<lambda>k. data (np_eye D) ! k * e) [0..<D * D]"
  define M where "M = \<lparr>shape = [D, D], data = map2 (-) (data (np_eye D)) (data (np_ones D D))\<rparr>"
  define C where "C = map (\<lambda>k. data M ! k * en) [0..<D * D]"
  have sh: "shape (np_eye D) = [D] @ [D]" by (simp add: np_eye_def)
  have ln: "length (data (np_eye D)) = prod_list [D] * D" by (simp add: np_eye_def)
  have fits: "step_fits (Scalar x) D" for x by simp
  have t: "times_step (np_eye D) (Scalar e) = Inr \<lparr>shape = [D, D], data = E\<rparr>"
    using times_step_fits [OF sh ln fits, of e] by (simp add: E_def)
  have dv: "step_div_int (Scalar e) (int D - 1) = Inr (Scalar en)"
    using assms by (simp add: en_def)
  have m: "np_binop2 (-) (np_eye D) (np_ones D D) = Inr M"
    unfolding M_def by (rule np_binop2_same_shape) (simp_all add: np_eye_def np_ones_def)
  have shM: "shape M = [D] @ [D]" and lnM: "length (data M) = prod_list [D] * D"
    by (simp_all add: M_def np_eye_def np_ones_def)
  have c: "times_step M (Scalar en) = Inr \<lparr>shape = [D, D], data = C\<rparr>"
    using times_step_fits [OF shM lnM fits, of en] by (simp add: C_def)
  have lE: "length E = D * D" and lC: "length C = D * D" by (simp_all add: E_def C_def)
  define T1 where "T1 = np_tile \<lparr>shape = [D, D], data = E\<rparr> n"
  define T2 where "T2 = np_tile \<lparr>shape = [D, D], data = C\<rparr> n"
  have s1: "shape T1 = [n * D, D]" and s2: "shape T2 = [n * D, D]"
    and l1: "length (data T1) = n * D * D" and l2: "length (data T2) = n * D * D"
    by (simp_all add: T1_def T2_def np_tile_def length_concat_replicate lE lC mult.assoc)
  have ia: "np_iadd T1 T2 = Inr \<lparr>shape = [n * D, D], data = map2 (+) (data T1) (data T2)\<rparr>"
    using np_binop2_same_shape [OF s1 s2 l1 l2, of "(+)"] s1 by (simp add: np_iadd_def)
  have p: "perturbation n D (Scalar e) True =
      Inr \<lparr>shape = [n * D, D], data = map2 (+) (data T1) (data T2)\<rparr>"
    unfolding perturbation_def t sum.case Let_def dv m c T1_def [symmetric] T2_def [symmetric]
    using ia by simp
  have e: "map2 (+) (data T1) (data T2) ! k =
      (if (k div D) mod D = k mod D then e else 0) +
      ((if (k div D) mod D = k mod D then 1 else 0) - 1) * (e / (real D - 1))"
    if k: "k < n * D * D" for k
  proof -
    have "0 < D * D" using k by (cases D) auto
    then have md: "k mod (D * D) < D * D" by simp
    have k': "k < n * (D * D)" using k by (simp add: mult.assoc)
    have a: "data T1 ! k = E ! (k mod (D * D))"
      using k' nth_concat_replicate [of k n E] by (simp add: T1_def np_tile_def lE)
    have b: "data T2 ! k = C ! (k mod (D * D))"
      using k' nth_concat_replicate [of k n C] by (simp add: T2_def np_tile_def lC)
    have ey: "data (np_eye D) ! (k mod (D * D)) = (if (k div D) mod D = k mod D then 1 else 0)"
      using md by (simp add: np_eye_def mod_square_div mod_square_mod)
    have ea: "E ! (k mod (D * D)) = (if (k div D) mod D = k mod D then e else 0)"
      using md ey by (simp add: E_def)
    have mm: "data M ! (k mod (D * D)) = (if (k div D) mod D = k mod D then 1 else 0) - 1"
      using md ey by (simp add: M_def np_eye_def np_ones_def)
    have ca: "C ! (k mod (D * D)) =
        ((if (k div D) mod D = k mod D then 1 else 0) - 1) * (e / (real D - 1))"
      using md mm by (simp add: C_def en_def)
    show ?thesis
      using k l1 l2 by (simp add: a b ea ca)
  qed
  show ?thesis
    using p e l1 l2 by simp
qed

lemma proba_perturbation_sums_to_zero:
  assumes "j < D" "1 < D"
  shows "(\<Sum>m = 0..<D. (if j = m then e else 0) +
            ((if j = m then 1 else 0) - 1) * (e / (real D - 1))) = (0::real)"
proof -
  have a: "(\<Sum>m = 0..<D. if j = m then e else 0) = e"
    using assms(1) by simp
  have b: "(\<Sum>m = 0..<D. (if j = m then 1 else 0) - (1::real)) = 1 - real D"
    using assms(1) by (simp add: sum_subtractf)
  have "(\<Sum>m = 0..<D. (if j = m then e else 0) +
            ((if j = m then 1 else 0) - 1) * (e / (real D - 1)))
      = (\<Sum>m = 0..<D. if j = m then e else 0) +
        (\<Sum>m = 0..<D. (if j = m then 1 else 0) - (1::real)) * (e / (real D - 1))"
    by (simp only: sum.distrib sum_distrib_right)
  also have "\<dots> = e + (1 - real D) * (e / (real D - 1))"
    by (simp only: a b)
  also have "\<dots> = 0"
    using assms(2) by (simp add: field_simps)
  finally show ?thesis .
qed

lemma sum_list_instance_row:
  assumes "shape A = r # F" "D = prod_list F" "length (data A) = r * D" "i < r"
  shows "sum_list (instance_row A i) = (\<Sum>m = 0..<D. data A ! (i * D + m))"
proof -
  have "sum_list (instance_row A i) = (\<Sum>m = 0..<length (instance_row A i). instance_row A i ! m)"
    by (rule sum_list_sum_nth)
  also have "\<dots> = (\<Sum>m = 0..<D. instance_row A i ! m)"
    by (simp only: length_instance_row [OF assms])
  also have "\<dots> = (\<Sum>m = 0..<D. data A ! (i * D + m))"
    using instance_row_nth [OF assms] by (intro sum.cong) simp_all
  finally show ?thesis .
qed

text \<open>
  Claim C5: for a batch of shape \<open>(N, *F)\<close> with more than one flattened feature and a
  scalar step, \<open>perturb(X, eps, proba=True)\<close> returns its two arrays whenever the batch is
  not empty, and every flattened row \<open>r\<close> of either returned array has the same sum as
  the instance \<open>r div D\<close> it was made from.
\<close>

theorem perturb_proba_keeps_row_sums:
  assumes "well_formed X" and "shape X = n # F" and "1 < prod_list F"
  shows "(0 < n \<longrightarrow> (\<exists>pos neg. perturb X (Scalar e) True = Inr (pos, neg))) \<and>
     (\<forall>pos neg. perturb X (Scalar e) True = Inr (pos, neg) \<longrightarrow>
        shape pos = (n * prod_list F) # F \<and> shape neg = (n * prod_list F) # F \<and>
        (\<forall>r<n * prod_list F.
           sum_list (instance_row pos r) = sum_list (instance_row X (r div prod_list F)) \<and>
           sum_list (instance_row neg r) = sum_list (instance_row X (r div prod_list F))))"
proof (cases "n = 0")
  case True
  then have "perturb X (Scalar e) True = Inl ValueError"
    using assms(2) by (simp add: perturb_zero_rows_raises)
  then show ?thesis using True by simp
next
  case False
  then have n: "0 < n" by simp
  define D where "D = prod_list F"
  define g where "g = (\<lambda>(j::nat) (m::nat). (if j = m then e else 0) +
      ((if j = m then 1 else 0) - 1) * (e / (real D - 1)))"
  have D1: "1 < D" "D \<noteq> 1" using assms(3) by (simp_all add: D_def)
  from perturbation_proba [OF D1(2), of n e] obtain P where
    P: "perturbation n D (Scalar e) True = Inr P" and shP: "shape P = [n * D, D]"
    and lenP: "length (data P) = n * D * D"
    and eP: "\<forall>k<n * D * D. data P ! k = g ((k div D) mod D) (k mod D)"
    unfolding g_def by blast
  from perturb_entries [OF assms(1,2) n D_def P shP lenP eP] obtain pos neg where
    run: "perturb X (Scalar e) True = Inr (pos, neg)"
    and shp: "shape pos = (n * D) # F" and shn: "shape neg = (n * D) # F"
    and lp: "length (data pos) = n * D * D" and ln: "length (data neg) = n * D * D"
    and ent: "\<forall>i<n. \<forall>j<D. \<forall>m<D.
         data pos ! ((i * D + j) * D + m) = data X ! (i * D + m) + g j m \<and>
         data neg ! ((i * D + j) * D + m) = data X ! (i * D + m) - g j m"
    by blast
  have lX: "length (data X) = n * D"
    using assms(1,2) by (simp add: well_formed_def np_size_def D_def)
  have sums: "sum_list (instance_row pos r) = sum_list (instance_row X (r div D)) \<and>
           sum_list (instance_row neg r) = sum_list (instance_row X (r div D))"
    if r: "r < n * D" for r
  proof -
    define i where "i = r div D"
    define j where "j = r mod D"
    have j: "j < D" using D1 by (simp add: j_def)
    have i: "i < n" using r by (simp add: i_def less_mult_imp_div_less)
    have rij: "r = i * D + j" by (simp add: i_def j_def)
    have z: "(\<Sum>m = 0..<D. g j m) = 0"
      unfolding g_def by (rule proba_perturbation_sums_to_zero [OF j D1(1)])
    have sx: "sum_list (instance_row X i) = (\<Sum>m = 0..<D. data X ! (i * D + m))"
      by (rule sum_list_instance_row [OF assms(2) D_def lX i])
    have "sum_list (instance_row pos r) = (\<Sum>m = 0..<D. data pos ! (r * D + m))"
      by (rule sum_list_instance_row [OF shp D_def lp r])
    also have "\<dots> = (\<Sum>m = 0..<D. data X ! (i * D + m) + g j m)"
      using ent i j by (intro sum.cong) (simp_all add: rij)
    also have "\<dots> = sum_list (instance_row X i)"
      by (simp add: sum.distrib z sx)
    finally have a: "sum_list (instance_row pos r) = sum_list (instance_row X i)" .
    have "sum_list (instance_row neg r) = (\<Sum>m = 0..<D. data neg ! (r * D + m))"
      by (rule sum_list_instance_row [OF shn D_def ln r])
    also have "\<dots> = (\<Sum>m = 0..<D. data X ! (i * D + m) - g j m)"
      using ent i j by (intro sum.cong) (simp_all add: rij)
    also have "\<dots> = sum_list (instance_row X i)"
      by (simp add: sum_subtractf z sx)
    finally have b: "sum_list (instance_row neg r) = sum_list (instance_row X i)" .
    from a b show ?thesis by (simp add: i_def)
  qed
  show ?thesis
    using run shp shn sums unfolding D_def by auto
qed

theorem perturb_proba_keeps_row_sums_witness:
  "well_formed batch_2x2 \<and> shape batch_2x2 = [2, 2] \<and> (1::nat) < prod_list [2] \<and>
   perturb batch_2x2 (Scalar (1 / 2)) True =
     Inr (\<lparr>shape = [4, 2], data = [3 / 2, 3 / 2, 1 / 2, 5 / 2, 7 / 2, 7 / 2, 5 / 2, 9 / 2]\<rparr>,
          \<lparr>shape = [4, 2], data = [1 / 2, 5 / 2, 3 / 2, 3 / 2, 5 / 2, 9 / 2, 7 / 2, 7 / 2]\<rparr>) \<and>
   sum_list (instance_row
      \<lparr>shape = [4, 2], data = [3 / 2, 3 / 2, 1 / 2, 5 / 2, 7 / 2, 7 / 2, 5 / 2, 9 / 2 :: real]\<rparr> 3)
     = sum_list (instance_row batch_2x2 (3 div prod_list [2]))"
proof -
  have a: "well_formed batch_2x2"
    by (simp add: batch_2x2_def well_formed_def np_size_def)
  have b: "shape batch_2x2 = [2, 2]" by (simp add: batch_2x2_def)
  have c: "(1::nat) < prod_list [2]" by simp
  have run: "perturb batch_2x2 (Scalar (1 / 2)) True =
     Inr (\<lparr>shape = [4, 2], data = [3 / 2, 3 / 2, 1 / 2, 5 / 2, 7 / 2, 7 / 2, 5 / 2, 9 / 2]\<rparr>,
          \<lparr>shape = [4, 2], data = [1 / 2, 5 / 2, 3 / 2, 3 / 2, 5 / 2, 9 / 2, 7 / 2, 7 / 2]\<rparr>)"
    by code_simp
  from perturb_proba_keeps_row_sums [OF a b c, of "1 / 2"] run a b c show ?thesis
    by simp
qed

section \<open>Properties of num\_grad\_batch\<close>











text \<open>
  Claim C1 at the failing input: for a black box with two outputs per instance (its
  predictions on a batch of \<open>N\<close> instances have shape \<open>(N, 2)\<close>) and a batch of shape
  \<open>(2, 2)\<close>, \<open>num_grad_batch\<close> raises ValueError instead of returning an array of shape
  \<open>(2, 2, 2)\<close>: after the reshape to one column the first 4 of the 16 predictions are
  subtracted from the other 12.
\<close>

theorem num_grad_batch_two_outputs_raises:
  "well_formed batch_2x2 \<and> shape batch_2x2 = [2, 2] \<and>
   shape (two_outputs batch_2x2 ()) = [2, 2] \<and>
   well_formed (two_outputs batch_2x2 ()) \<and>
   num_grad_batch two_outputs batch_2x2 () (Scalar (1 / 2)) = Inl ValueError"
proof -
  have a: "well_formed batch_2x2" "shape batch_2x2 = [2, 2]"
    by (simp_all add: batch_2x2_def well_formed_def np_size_def)
  have b: "shape (two_outputs batch_2x2 ()) = [2, 2]"
    by (simp add: two_outputs_def batch_2x2_def)
  have c: "well_formed (two_outputs batch_2x2 ())"
    by code_simp
  have d: "num_grad_batch two_outputs batch_2x2 () (Scalar (1 / 2)) = Inl ValueError"
    by code_simp
  from a b c d show ?thesis by simp
qed

section \<open>Properties of perturb on the store\<close>

lemma extends_iff:
  "extends h h' \<longleftrightarrow> length h \<le> length h' \<and> (\<forall>a<length h. h' ! a = h ! a)"
proof
  assume "extends h h'"
  then have t: "take (length h) h' = h" by (simp add: extends_def)
  then have "length (take (length h) h') = length h" by simp
  then have l: "length h \<le> length h'" by simp
  moreover have "h' ! a = h ! a" if "a < length h" for a
  proof -
    have "take (length h) h' ! a = h' ! a" using that by simp
    then show ?thesis by (simp add: t)
  qed
  ultimately show "length h \<le> length h' \<and> (\<forall>a<length h. h' ! a = h ! a)" by simp
next
  assume "length h \<le> length h' \<and> (\<forall>a<length h. h' ! a = h ! a)"
  then show "extends h h'"
    unfolding extends_def by (intro nth_equalityI) simp_all
qed

lemma extends_refl: "extends h h"
  by (simp add: extends_def)

lemma extends_trans: "extends h h' \<Longrightarrow> extends h' h'' \<Longrightarrow> extends h h''"
  by (auto simp add: extends_iff)

lemma extends_append: "extends h (h @ [d])"
  by (simp add: extends_iff nth_append)

lemma extends_update: "extends h0 h \<Longrightarrow> length h0 \<le> b \<Longrightarrow> extends h0 (h[b := d])"
  by (auto simp add: extends_iff)

lemma load_extends: "extends h h' \<Longrightarrow> base a < length h \<Longrightarrow> load h' a = load h a"
  by (simp add: extends_iff load_def)

lemma np_iadd_shape: "np_iadd A B = Inr R \<Longrightarrow> shape R = shape A"
  by (auto simp add: np_iadd_def split: sum.splits if_splits)

lemma new_array_props:
  assumes "new_array A h = (a, h')"
  shows "extends h h'" "base a = length h" "length h' = Suc (length h)" "load h' a = A"
  using assms by (auto simp add: new_array_def extends_append load_def)

lemma new_result_props:
  assumes "new_result r h = (r', h')"
  shows "extends h h'"
    and "\<And>e. r = Inl e \<Longrightarrow> r' = Inl e"
    and "\<And>A. r = Inr A \<Longrightarrow>
           (\<exists>a. r' = Inr a \<and> base a = length h \<and> length h' = Suc (length h) \<and> load h' a = A)"
    and "\<And>a. r' = Inr a \<Longrightarrow>
           (r = Inr (load h' a) \<and> base a = length h \<and> length h' = Suc (length h))"
  using assms
  by (auto simp add: new_result_def new_array_def extends_append extends_refl load_def
      split: sum.splits)

lemma ndarray_eta: "\<lparr>shape = shape A, data = data A\<rparr> = (A :: 'a ndarray)"
  by (cases A) simp

lemma np_iadd_eta: "np_iadd A B = Inr R \<Longrightarrow> \<lparr>shape = shape A, data = data R\<rparr> = R"
  using np_iadd_shape [of A B R] by (cases R) simp

lemma perturbation_st_refines:
  assumes "perturbation_st n d eps proba h = (r, h')"
  shows "extends h h' \<and>
     (case r of
        Inl e \<Rightarrow> perturbation n d eps proba = Inl e
      | Inr a \<Rightarrow> length h \<le> base a \<and> base a < length h' \<and>
                 perturbation n d eps proba = Inr (load h' a))"
  using assms
  by (auto simp add: perturbation_st_def perturbation_def new_array_def new_result_def
      iadd_in_place_def load_def extends_iff nth_append Let_def ndarray_eta np_iadd_eta
      split: sum.splits if_splits prod.splits)

lemma perturb_st_refines:
  assumes X: "base X < length h"
    and run: "perturb_st X eps proba h = (r, h')"
  shows "extends h h' \<and>
     (case r of
        Inl e \<Rightarrow> perturb (load h X) eps proba = Inl e
      | Inr (pos, neg) \<Rightarrow>
          length h \<le> base pos \<and> base pos < length h' \<and>
          length h \<le> base neg \<and> base neg < length h' \<and>
          perturb (load h X) eps proba = Inr (load h' pos, load h' neg))"
proof (cases "ref_shape X")
  case Nil
  then show ?thesis
    using run by (auto simp add: perturb_st_def perturb_def load_def extends_refl)
next
  case (Cons n F)
  show ?thesis
  proof (cases "np_reshape (load h X) [Dim n, Infer]")
    case (Inl e)
    then show ?thesis
      using run Cons
      by (auto simp add: perturb_st_def perturb_def reshape_view_def extends_refl load_def)
  next
    case (Inr X2v)
    define X2 where "X2 = \<lparr>base = base X, ref_shape = shape X2v\<rparr>"
    define d where "d = shape X2v ! 1"
    have d1: "shape X2v ! 1 = d" and rs1: "ref_shape X2 ! 1 = d"
      by (simp_all add: d_def X2_def)
    have Xl: "shape (load h X) = n # F" by (simp add: load_def Cons)
    note rsh = \<open>np_reshape (load h X) [Dim n, Infer] = Inr X2v\<close>
    have rv: "reshape_view X [Dim n, Infer] h = Inr X2"
      using Inr by (simp add: reshape_view_def X2_def)
    have dX2v: "data X2v = h ! base X"
      using Inr by (auto simp add: np_reshape_def load_def split: sum.splits)
    have lX2: "load h X2 = X2v"
      using dX2v by (cases X2v) (simp add: load_def X2_def)
    obtain r1 h1 where p1: "perturbation_st n d eps proba h = (r1, h1)"
      by (cases "perturbation_st n d eps proba h")
    from perturbation_st_refines [OF p1] have e1: "extends h h1"
      and c1: "case r1 of
          Inl e \<Rightarrow> perturbation n d eps proba = Inl e
        | Inr a \<Rightarrow> length h \<le> base a \<and> base a < length h1 \<and>
                   perturbation n d eps proba = Inr (load h1 a)"
      by simp_all
    have lX2': "load h1 X2 = X2v"
      using load_extends [OF e1, of X2] X lX2 by (simp add: X2_def)
    show ?thesis
    proof (cases r1)
      case (Inl e)
      then have "perturb_st X eps proba h = (Inl e, h1)"
        using p1 by (simp only: perturb_st_def Cons list.case rv sum.case Let_def rs1 prod.case)
      moreover have "perturb (load h X) eps proba = Inl e"
        using c1 Inl by (simp only: perturb_def Xl list.case rsh sum.case Let_def d1)
      ultimately show ?thesis using run e1 by auto
    next
      case (Inr pert)
      from c1 Inr have pb: "length h \<le> base pert" "base pert < length h1"
        and pv: "perturbation n d eps proba = Inr (load h1 pert)"
        by simp_all
      have vstep: "perturb (load h X) eps proba =
          (let X_rep = np_repeat X2v d
           in case np_binop2 (+) X_rep (load h1 pert) of
                Inl e \<Rightarrow> Inl e
              | Inr X_pert_pos \<Rightarrow>
                  (case np_binop2 (-) X_rep (load h1 pert) of
                     Inl e \<Rightarrow> Inl e
                   | Inr X_pert_neg \<Rightarrow>
                       (let shape' = map Dim ((d * n) # F)
                        in case np_reshape X_pert_pos shape' of
                             Inl e \<Rightarrow> Inl e
                           | Inr pos \<Rightarrow>
                               (case np_reshape X_pert_neg shape' of
                                  Inl e \<Rightarrow> Inl e
                                | Inr neg \<Rightarrow> Inr (pos, neg)))))"
        by (simp only: perturb_def Xl list.case rsh sum.case Let_def d1 pv)
      have sstep: "perturb_st X eps proba h =
          (case new_array (np_repeat X2v d) h1 of (X_rep, h2) \<Rightarrow>
             case new_result (np_binop2 (+) (load h2 X_rep) (load h2 pert)) h2 of
               (Inl e, h3) \<Rightarrow> (Inl e, h3)
             | (Inr X_pert_pos, h3) \<Rightarrow>
                 (case new_result (np_binop2 (-) (load h3 X_rep) (load h3 pert)) h3 of
                    (Inl e, h4) \<Rightarrow> (Inl e, h4)
                  | (Inr X_pert_neg, h4) \<Rightarrow>
                      (let shape' = map Dim ((d * n) # F)
                       in case reshape_view X_pert_pos shape' h4 of
                            Inl e \<Rightarrow> (Inl e, h4)
                          | Inr pos \<Rightarrow>
                              (case reshape_view X_pert_neg shape' h4 of
                                 Inl e \<Rightarrow> (Inl e, h4)
                               | Inr neg \<Rightarrow> (Inr (pos, neg), h4)))))"
        using p1 unfolding Inr
        by (simp only: perturb_st_def Cons list.case rv sum.case Let_def rs1 prod.case lX2')
      have lp: "load (h1 @ [x]) pert = load h1 pert" for x
        using pb by (simp add: load_def nth_append)
      have lp2: "load (h1 @ [x, y]) pert = load h1 pert" for x y
        using pb by (simp add: load_def nth_append)
      show ?thesis
        using run e1 pb unfolding sstep vstep
        by (auto simp add: new_array_def new_result_def reshape_view_def load_def
            extends_iff nth_append Let_def ndarray_eta np_reshape_def
            split: sum.splits if_splits prod.splits)
    qed
  qed
qed

text \<open>
  Claim C9: run on a store that holds the input array, \<open>perturb\<close> leaves every buffer
  the store had before the call as it was, so the input reads back with the values it
  had; when it returns, the two returned arrays sit on buffers allocated during the
  call, none of them the input's, and hold the values that \<open>perturb\<close> computes from the
  input; when it raises, it raises what \<open>perturb\<close> on the input's value raises.
\<close>

theorem perturb_leaves_input_unchanged:
  assumes "base X < length h" and "perturb_st X eps proba h = (r, h')"
  shows "load h' X = load h X \<and> (\<forall>a<length h. h' ! a = h ! a) \<and>
     (\<forall>e. r = Inl e \<longrightarrow> perturb (load h X) eps proba = Inl e) \<and>
     (\<forall>pos neg. r = Inr (pos, neg) \<longrightarrow>
        base pos \<noteq> base X \<and> base neg \<noteq> base X \<and>
        length h \<le> base pos \<and> base pos < length h' \<and>
        length h \<le> base neg \<and> base neg < length h' \<and>
        perturb (load h X) eps proba = Inr (load h' pos, load h' neg))"
proof -
  from perturb_st_refines [OF assms] have ext: "extends h h'"
    and res: "case r of
        Inl e \<Rightarrow> perturb (load h X) eps proba = Inl e
      | Inr (pos, neg) \<Rightarrow>
          length h \<le> base pos \<and> base pos < length h' \<and>
          length h \<le> base neg \<and> base neg < length h' \<and>
          perturb (load h X) eps proba = Inr (load h' pos, load h' neg)"
    by simp_all
  have a: "load h' X = load h X" by (rule load_extends [OF ext assms(1)])
  have b: "\<forall>a<length h. h' ! a = h ! a" using ext by (simp add: extends_iff)
  have c: "\<forall>e. r = Inl e \<longrightarrow> perturb (load h X) eps proba = Inl e"
    using res by auto
  have d: "\<forall>pos neg. r = Inr (pos, neg) \<longrightarrow>
        base pos \<noteq> base X \<and> base neg \<noteq> base X \<and>
        length h \<le> base pos \<and> base pos < length h' \<and>
        length h \<le> base neg \<and> base neg < length h' \<and>
        perturb (load h X) eps proba = Inr (load h' pos, load h' neg)"
    using res assms(1) by auto
  from a b c d show ?thesis by blast
qed

theorem perturb_leaves_input_unchanged_witness:
  "base ref_2x2 < length heap_2x2 \<and>
   fst (perturb_st ref_2x2 (Scalar (1 / 2)) False heap_2x2)
     = Inr (\<lparr>base = 5, ref_shape = [4, 2]\<rparr>, \<lparr>base = 6, ref_shape = [4, 2]\<rparr>) \<and>
   load (snd (perturb_st ref_2x2 (Scalar (1 / 2)) False heap_2x2)) ref_2x2 = batch_2x2 \<and>
   load heap_2x2 ref_2x2 = batch_2x2 \<and>
   (5::nat) \<noteq> base ref_2x2 \<and> (6::nat) \<noteq> base ref_2x2"
proof -
  have a: "base ref_2x2 < length heap_2x2" by (simp add: ref_2x2_def heap_2x2_def)
  have f: "fst (perturb_st ref_2x2 (Scalar (1 / 2)) False heap_2x2)
     = Inr (\<lparr>base = 5, ref_shape = [4, 2]\<rparr>, \<lparr>base = 6, ref_shape = [4, 2]\<rparr>)"
    by code_simp
  have b: "perturb_st ref_2x2 (Scalar (1 / 2)) False heap_2x2 =
      (Inr (\<lparr>base = 5, ref_shape = [4, 2]\<rparr>, \<lparr>base = 6, ref_shape = [4, 2]\<rparr>),
       snd (perturb_st ref_2x2 (Scalar (1 / 2)) False heap_2x2))"
    using f by (simp add: prod_eq_iff)
  have l: "load heap_2x2 ref_2x2 = batch_2x2"
    by (simp add: load_def heap_2x2_def ref_2x2_def batch_2x2_def)
  from perturb_leaves_input_unchanged [OF a b]
  have "load (snd (perturb_st ref_2x2 (Scalar (1 / 2)) False heap_2x2)) ref_2x2
          = load heap_2x2 ref_2x2"
    and "(5::nat) \<noteq> base ref_2x2 \<and> (6::nat) \<noteq> base ref_2x2"
    by simp_all
  with a f l show ?thesis by simp
qed

end
